theory Spec2Isabelle
  imports Main "HOL-Library.Char_ord" "HOL-Library.List_Lexorder"
begin

section \<open>Python values, exceptions and datetimes\<close>

text \<open>
  The exporter is a Python script. Everything it reads from the GitLab API is the result of
  \<^verbatim>\<open>r.json()\<close>: \<^verbatim>\<open>None\<close>, booleans, integers, strings, lists and dicts (numbers are
  integers here: the script computes with none of them, it only copies them). The events it builds are
  dicts from field names to such values. A dict is an association list in insertion order
  with distinct keys.
\<close>

datatype json =
    JNull
  | JBool bool
  | JNum int
  | JStr string
  | JArr "json list"
  | JObj "(string \<times> json) list"

text \<open>The exceptions (all subclasses of \<^verbatim>\<open>Exception\<close>) that the script can meet.\<close>

datatype error =
    RuntimeError string
  | TypeError
  | AttributeError
  | KeyError
  | ValueError
  | OverflowError
  | ConnectionError
  | CalledProcessError
  | JSONDecodeError

text \<open>
  A \<^verbatim>\<open>datetime\<close>: the wall-clock reading in microseconds since 0001-01-01T00:00:00 and the
  UTC offset (in microseconds) of an aware value; a naive value has no offset. Python orders
  two naive values by their wall clocks, two aware values by their UTC instants, and raises
  \<^verbatim>\<open>TypeError\<close> when one is naive and the other aware.
\<close>

record datetime =
  wall :: int
  utcoffset :: "int option"

definition instant :: "datetime \<Rightarrow> int" where
  "instant d = (case utcoffset d of None \<Rightarrow> wall d | Some off \<Rightarrow> wall d - off)"

definition comparable :: "datetime \<Rightarrow> datetime \<Rightarrow> bool" where
  "comparable a b = ((utcoffset a = None) = (utcoffset b = None))"

text \<open>\<^verbatim>\<open>a < b\<close> where \<^verbatim>\<open>a\<close> may be \<^verbatim>\<open>None\<close> (the result of a failed parse).\<close>

definition py_lt :: "datetime option \<Rightarrow> datetime \<Rightarrow> error + bool" where
  "py_lt a b =
     (case a of
        None \<Rightarrow> Inl TypeError
      | Some x \<Rightarrow> if comparable x b then Inr (instant x < instant b) else Inl TypeError)"

definition py_gt :: "datetime option \<Rightarrow> datetime \<Rightarrow> error + bool" where
  "py_gt a b =
     (case a of
        None \<Rightarrow> Inl TypeError
      | Some x \<Rightarrow> if comparable x b then Inr (instant b < instant x) else Inl TypeError)"

text \<open>Truthiness of a value, as \<^verbatim>\<open>if x:\<close>, \<^verbatim>\<open>not x\<close> and \<^verbatim>\<open>x or y\<close> read it.\<close>

fun truthy :: "json \<Rightarrow> bool" where
  "truthy JNull = False"
| "truthy (JBool b) = b"
| "truthy (JNum n) = (n \<noteq> 0)"
| "truthy (JStr s) = (s \<noteq> [])"
| "truthy (JArr xs) = (xs \<noteq> [])"
| "truthy (JObj kvs) = (kvs \<noteq> [])"

text \<open>
  What the script takes from outside itself: the optional \<^verbatim>\<open>dateutil\<close> parser
  (\<^verbatim>\<open>dtparser\<close> is \<^verbatim>\<open>None\<close> when the import failed; its argument \<^verbatim>\<open>dayfirst\<close> is the
  boolean), \<^verbatim>\<open>datetime.fromisoformat\<close>, \<^verbatim>\<open>datetime.isoformat\<close>, the clock,
  \<^verbatim>\<open>urllib.parse.quote_plus\<close>, the \<^verbatim>\<open>git\<close> binary behind \<^verbatim>\<open>subprocess.check_output\<close>
  and \<^verbatim>\<open>repr\<close> of a list or dict.
\<close>

record env =
  dtparser :: "(bool \<Rightarrow> string \<Rightarrow> error + datetime) option"
  fromisoformat :: "string \<Rightarrow> error + datetime"
  isoformat :: "datetime \<Rightarrow> string"
  now :: datetime
  quote_plus :: "string \<Rightarrow> string"
  check_output :: "string \<Rightarrow> string list \<Rightarrow> error + string"
  py_repr :: "json \<Rightarrow> string"

section \<open>Date normalization and filtering\<close>

text \<open>\<^verbatim>\<open>s.replace(old, new)\<close> for single characters.\<close>

definition replace_char :: "char \<Rightarrow> char \<Rightarrow> string \<Rightarrow> string" where
  "replace_char old new s = map (\<lambda>c. if c = old then new else c) s"

text \<open>
  \<^verbatim>\<open>normalize_date\<close>. Its argument is always a value taken from a JSON object, so the
  branch for an argument that already is a \<^verbatim>\<open>datetime\<close> is never taken here. The
  \<^verbatim>\<open>dateutil\<close> parser raises \<^verbatim>\<open>TypeError\<close> on anything that is not a string, and
  every exception of the parser returns the argument unchanged.
\<close>

definition normalize_date :: "env \<Rightarrow> json \<Rightarrow> json" where
  "normalize_date E s =
     (if \<not> truthy s then JStr []
      else case dtparser E of
             Some p \<Rightarrow>
               (case s of
                  JStr t \<Rightarrow> (case p False t of Inr d \<Rightarrow> JStr (isoformat E d) | Inl e \<Rightarrow> s)
                | _ \<Rightarrow> s)
           | None \<Rightarrow> s)"

text \<open>
  \<^verbatim>\<open>parse_date_any\<close>. \<^verbatim>\<open>s.replace\<close> stands outside every \<^verbatim>\<open>try\<close>, so a truthy value
  that is not a string raises \<^verbatim>\<open>AttributeError\<close>. The result \<^verbatim>\<open>None\<close> is
  \<^term>\<open>Inr None\<close>.
\<close>

definition parse_date_any :: "env \<Rightarrow> json \<Rightarrow> error + datetime option" where
  "parse_date_any E s =
     (if \<not> truthy s then Inr None
      else case s of
             JStr t \<Rightarrow>
               (let t' = replace_char CHR ''/'' CHR ''-'' t in
                case dtparser E of
                  Some p \<Rightarrow> (case p True t' of Inr d \<Rightarrow> Inr (Some d) | Inl e \<Rightarrow> Inr None)
                | None \<Rightarrow> (case fromisoformat E t' of Inr d \<Rightarrow> Inr (Some d) | Inl e \<Rightarrow> Inr None))
           | _ \<Rightarrow> Inl AttributeError)"

text \<open>
  \<^verbatim>\<open>within_range\<close>. A bound is set when it is not \<^verbatim>\<open>None\<close> (a \<^verbatim>\<open>datetime\<close> is always
  truthy). Only the call of \<^verbatim>\<open>parse_date_any\<close> is inside the \<^verbatim>\<open>try\<close>; the two
  comparisons are not.
\<close>

definition within_range :: "env \<Rightarrow> json \<Rightarrow> datetime option \<Rightarrow> datetime option \<Rightarrow> error + bool" where
  "within_range E ts start end =
     (if \<not> truthy ts then
        (case start of
           Some a \<Rightarrow> Inr False
         | None \<Rightarrow> (case end of Some b \<Rightarrow> Inr False | None \<Rightarrow> Inr True))
      else case parse_date_any E ts of
             Inl e \<Rightarrow> Inr False
           | Inr dt \<Rightarrow>
               (case (case start of None \<Rightarrow> Inr False | Some a \<Rightarrow> py_lt dt a) of
                  Inl e \<Rightarrow> Inl e
                | Inr True \<Rightarrow> Inr False
                | Inr False \<Rightarrow>
                    (case (case end of None \<Rightarrow> Inr False | Some b \<Rightarrow> py_gt dt b) of
                       Inl e \<Rightarrow> Inl e
                     | Inr True \<Rightarrow> Inr False
                     | Inr False \<Rightarrow> Inr True)))"

section \<open>The local repository: \<^verbatim>\<open>git log\<close> and \<^verbatim>\<open>git reflog\<close>\<close>

text \<open>An audit event is a dict from field names to values.\<close>

type_synonym event = "(string \<times> json) list"

text \<open>
  \<^verbatim>\<open>s.split(sep, maxsplit)\<close> for a one-character separator: at most \<^verbatim>\<open>maxsplit\<close> cuts,
  from the left; the last part keeps every further separator. The result is never empty
  and has at most \<^verbatim>\<open>maxsplit + 1\<close> parts.
\<close>

fun split_max :: "char \<Rightarrow> nat \<Rightarrow> string \<Rightarrow> string list" where
  "split_max sep 0 s = [s]"
| "split_max sep (Suc n) s =
     (if sep \<in> set s
      then takeWhile (\<lambda>c. c \<noteq> sep) s # split_max sep n (tl (dropWhile (\<lambda>c. c \<noteq> sep) s))
      else [s])"

text \<open>
  \<^verbatim>\<open>s.splitlines()\<close>: a line ends at LF, CR, CR LF, VT, FF, FS, GS, RS or NEL (the two
  separators beyond U+00FF are outside \<^typ>\<open>char\<close>); the terminators are dropped and a
  final terminator opens no empty last line.
\<close>

definition is_linebreak :: "char \<Rightarrow> bool" where
  "is_linebreak c = (c \<in> {CHR 0x0A, CHR 0x0B, CHR 0x0C, CHR 0x0D, CHR 0x1C, CHR 0x1D, CHR 0x1E, CHR 0x85})"

fun splitlines_from :: "string \<Rightarrow> string \<Rightarrow> string list" where
  "splitlines_from cur [] = (if cur = [] then [] else [cur])"
| "splitlines_from cur [c] = (if is_linebreak c then [cur] else [cur @ [c]])"
| "splitlines_from cur (c # d # cs) =
     (if c = CHR 0x0D \<and> d = CHR 0x0A then cur # splitlines_from [] cs
      else if is_linebreak c then cur # splitlines_from [] (d # cs)
      else splitlines_from (cur @ [c]) (d # cs))"

definition splitlines :: "string \<Rightarrow> string list" where
  "splitlines s = splitlines_from [] s"

text \<open>\<^verbatim>\<open>run_git\<close>: a non-zero exit of \<^verbatim>\<open>git\<close> is the exception of \<^verbatim>\<open>check_output\<close>.\<close>

definition run_git :: "env \<Rightarrow> string \<Rightarrow> string list \<Rightarrow> error + string" where
  "run_git E repo_path args = check_output E repo_path (''git'' # args)"

text \<open>
  \<^verbatim>\<open>parse_git_log\<close>. The body of the loop for one line: \<^verbatim>\<open>None\<close> is \<^verbatim>\<open>continue\<close>.
  \<^verbatim>\<open>split('|', 4)\<close> gives at most five parts, so after the test \<^verbatim>\<open>len(p) < 5\<close> the
  unpacking into five names always succeeds.
\<close>

definition git_log_row :: "string \<Rightarrow> event option" where
  "git_log_row line =
     (case split_max CHR ''|'' 4 line of
        [sha, an, ae, ad, msg] \<Rightarrow>
          Some [(''source'', JStr ''local_commit''),
                (''action_type'', JStr ''commit''),
                (''user_name'', JStr an),
                (''user_email'', JStr ae),
                (''timestamp'', JStr ad),
                (''ref'', JStr []),
                (''commit_sha'', JStr sha),
                (''message'', JStr msg),
                (''url'', JStr [])]
      | _ \<Rightarrow> None)"

fun git_log_rows :: "string list \<Rightarrow> event list \<Rightarrow> event list" where
  "git_log_rows [] rows = rows"
| "git_log_rows (line # lines) rows =
     (case git_log_row line of
        None \<Rightarrow> git_log_rows lines rows
      | Some ev \<Rightarrow> git_log_rows lines (rows @ [ev]))"

definition parse_git_log :: "env \<Rightarrow> string \<Rightarrow> error + event list" where
  "parse_git_log E repo_path =
     (case run_git E repo_path
             [''log'', ''--all'', ''--pretty=format:%H|%an|%ae|%ad|%s'', ''--date=iso''] of
        Inl e \<Rightarrow> Inl e
      | Inr out \<Rightarrow> Inr (git_log_rows (splitlines out) []))"

text \<open>
  \<^verbatim>\<open>parse_reflog\<close>: the first token up to a space is the hash, the rest the message; the
  other fields, the timestamp among them, are empty strings.
\<close>

definition reflog_row :: "string \<Rightarrow> event" where
  "reflog_row line =
     (let parts = split_max CHR '' '' 1 line;
          sha = (case parts of [] \<Rightarrow> [] | x # xs \<Rightarrow> x);
          msg = (case parts of x # y # ys \<Rightarrow> y | _ \<Rightarrow> [])
      in [(''source'', JStr ''local_reflog''),
          (''action_type'', JStr ''reflog''),
          (''user_name'', JStr []),
          (''user_email'', JStr []),
          (''timestamp'', JStr []),
          (''ref'', JStr []),
          (''commit_sha'', JStr sha),
          (''message'', JStr msg),
          (''url'', JStr [])])"

fun reflog_rows :: "string list \<Rightarrow> event list \<Rightarrow> event list" where
  "reflog_rows [] rows = rows"
| "reflog_rows (line # lines) rows = reflog_rows lines (rows @ [reflog_row line])"

definition parse_reflog :: "env \<Rightarrow> string \<Rightarrow> error + event list" where
  "parse_reflog E repo_path =
     (case run_git E repo_path [''reflog'', ''--date=iso''] of
        Inl e \<Rightarrow> Inl e
      | Inr out \<Rightarrow> Inr (reflog_rows (splitlines out) []))"

section \<open>The GitLab API client\<close>

text \<open>\<^verbatim>\<open>str\<close> of an integer, for the status code in the error message and for f-strings.\<close>

fun str_nat :: "nat \<Rightarrow> string" where
  "str_nat n = (if n < 10 then [''0123456789'' ! n] else str_nat (n div 10) @ [''0123456789'' ! (n mod 10)])"

declare str_nat.simps [simp del]

definition str_int :: "int \<Rightarrow> string" where
  "str_int i = (if i < 0 then CHR ''-'' # str_nat (nat (- i)) else str_nat (nat i))"

text \<open>
  \<^verbatim>\<open>str(v)\<close>, which is also what an f-string does to a value. \<^verbatim>\<open>str\<close> of a list or a dict
  is its \<^verbatim>\<open>repr\<close>, taken from the environment.
\<close>

definition py_str :: "env \<Rightarrow> json \<Rightarrow> string" where
  "py_str E v =
     (case v of
        JNull \<Rightarrow> ''None''
      | JBool b \<Rightarrow> (if b then ''True'' else ''False'')
      | JNum n \<Rightarrow> str_int n
      | JStr s \<Rightarrow> s
      | _ \<Rightarrow> py_repr E v)"

text \<open>Dict operations: \<^verbatim>\<open>d.get(k, default)\<close> (only a dict has it), \<^verbatim>\<open>d[k]\<close>, \<^verbatim>\<open>d[k] = v\<close>
  and \<^verbatim>\<open>d.setdefault(k, v)\<close>.\<close>

definition dict_get :: "json \<Rightarrow> string \<Rightarrow> json \<Rightarrow> error + json" where
  "dict_get d k dflt =
     (case d of
        JObj kvs \<Rightarrow> Inr (case map_of kvs k of Some v \<Rightarrow> v | None \<Rightarrow> dflt)
      | _ \<Rightarrow> Inl AttributeError)"

definition subscript :: "json \<Rightarrow> string \<Rightarrow> error + json" where
  "subscript d k =
     (case d of
        JObj kvs \<Rightarrow> (case map_of kvs k of Some v \<Rightarrow> Inr v | None \<Rightarrow> Inl KeyError)
      | _ \<Rightarrow> Inl TypeError)"

fun dict_set :: "(string \<times> json) list \<Rightarrow> string \<Rightarrow> json \<Rightarrow> (string \<times> json) list" where
  "dict_set [] k v = [(k, v)]"
| "dict_set ((k', v') # kvs) k v = (if k' = k then (k, v) # kvs else (k', v') # dict_set kvs k v)"

definition setdefault :: "(string \<times> json) list \<Rightarrow> string \<Rightarrow> json \<Rightarrow> (string \<times> json) list" where
  "setdefault d k v = (case map_of d k of Some old \<Rightarrow> d | None \<Rightarrow> d @ [(k, v)])"

text \<open>\<^verbatim>\<open>s.rstrip('/')\<close>.\<close>

definition rstrip :: "char \<Rightarrow> string \<Rightarrow> string" where
  "rstrip c s = rev (dropWhile (\<lambda>x. x = c) (rev s))"

text \<open>
  One HTTP exchange of \<^verbatim>\<open>requests\<close>: the request carries the URL, the query parameters,
  the \<^verbatim>\<open>PRIVATE-TOKEN\<close> header of the session and the TLS flag; the response its
  \<^verbatim>\<open>ok\<close> flag, status code, text, the outcome of \<^verbatim>\<open>r.json()\<close> (which raises on a body
  that is not JSON) and \<^verbatim>\<open>r.headers.get\<close>. The remote side is a state machine
  \<open>send\<close>: from its state and a request it gives a response, or the exception of a
  failed transport, and its next state.
\<close>

record request =
  req_url :: string
  req_params :: "(string \<times> json) list"
  req_token :: string
  req_verify :: bool

record response =
  ok :: bool
  status_code :: nat
  body_text :: string
  json_body :: "error + json"
  headers_get :: "string \<Rightarrow> string option"

type_synonym 's transport = "'s \<Rightarrow> request \<Rightarrow> (error + response) \<times> 's"

record client =
  base_url :: string
  token :: string
  verify :: bool

definition GitLabClient :: "string \<Rightarrow> string \<Rightarrow> bool \<Rightarrow> client" where
  "GitLabClient u t verify_ssl = \<lparr>base_url = rstrip CHR ''/'' u, token = t, verify = verify_ssl\<rparr>"

text \<open>
  \<^verbatim>\<open>all_items.extend(data)\<close> for a body that is not a dict: a list adds its elements, a
  string its characters, anything else is not iterable.
\<close>

definition list_extend :: "json list \<Rightarrow> json \<Rightarrow> error + json list" where
  "list_extend all_items data =
     (case data of
        JArr xs \<Rightarrow> Inr (all_items @ xs)
      | JStr s \<Rightarrow> Inr (all_items @ map (\<lambda>c. JStr [c]) s)
      | JObj kvs \<Rightarrow> Inr (all_items @ map (\<lambda>kv. JStr (fst kv)) kvs)
      | _ \<Rightarrow> Inl TypeError)"

text \<open>\<^verbatim>\<open>r.headers.get('X-Next-Page') or ''\<close>.\<close>

definition next_page_of :: "response \<Rightarrow> string" where
  "next_page_of r = (case headers_get r ''X-Next-Page'' of None \<Rightarrow> [] | Some h \<Rightarrow> h)"

text \<open>
  The \<^verbatim>\<open>while True\<close> loop of \<^verbatim>\<open>_get\<close>. Nothing bounds the number of pages, so the loop
  is a partial function: \<^term>\<open>None\<close> is a run that never returns. The pause of 0.1 s
  between two pages changes no value.
\<close>

partial_function (option) get_loop ::
  "'s transport \<Rightarrow> client \<Rightarrow> string \<Rightarrow> (string \<times> json) list \<Rightarrow> json list \<Rightarrow> 's \<Rightarrow>
     ((error + json) \<times> 's) option" where
  "get_loop send cl u ps all_items s =
     (case send s \<lparr>req_url = u, req_params = ps, req_token = token cl, req_verify = verify cl\<rparr> of
        (Inl e, s1) \<Rightarrow> Some (Inl e, s1)
      | (Inr r, s1) \<Rightarrow>
          if \<not> ok r then
            Some (Inl (RuntimeError (''GitLab API error '' @ str_nat (status_code r) @ '': '' @ body_text r)), s1)
          else
            (case json_body r of
               Inl e \<Rightarrow> Some (Inl e, s1)
             | Inr (JObj kvs) \<Rightarrow> Some (Inr (JObj kvs), s1)
             | Inr data \<Rightarrow>
                 (case list_extend all_items data of
                    Inl e \<Rightarrow> Some (Inl e, s1)
                  | Inr items \<Rightarrow>
                      (let next_page = next_page_of r
                       in if next_page = [] then Some (Inr (JArr items), s1)
                          else get_loop send cl u (dict_set ps ''page'' (JStr next_page)) items s1))))"

declare get_loop.simps [code]

definition GitLabClient_get ::
  "'s transport \<Rightarrow> client \<Rightarrow> string \<Rightarrow> (string \<times> json) list option \<Rightarrow> 's \<Rightarrow>
     ((error + json) \<times> 's) option" where
  "GitLabClient_get send cl path params s =
     get_loop send cl (base_url cl @ path)
       (setdefault (case params of None \<Rightarrow> [] | Some p \<Rightarrow> p) ''per_page'' (JNum 100)) [] s"

definition get_project_by_path ::
  "'s transport \<Rightarrow> env \<Rightarrow> client \<Rightarrow> string \<Rightarrow> 's \<Rightarrow> ((error + json) \<times> 's) option" where
  "get_project_by_path send E cl project_path s =
     GitLabClient_get send cl (''/api/v4/projects/'' @ quote_plus E project_path) None s"

definition list_commits ::
  "'s transport \<Rightarrow> env \<Rightarrow> client \<Rightarrow> json \<Rightarrow> 's \<Rightarrow> ((error + json) \<times> 's) option" where
  "list_commits send E cl proj s =
     GitLabClient_get send cl
       (''/api/v4/projects/'' @ quote_plus E (py_str E proj) @ ''/repository/commits'') None s"

definition list_branches ::
  "'s transport \<Rightarrow> env \<Rightarrow> client \<Rightarrow> json \<Rightarrow> 's \<Rightarrow> ((error + json) \<times> 's) option" where
  "list_branches send E cl proj s =
     GitLabClient_get send cl
       (''/api/v4/projects/'' @ quote_plus E (py_str E proj) @ ''/repository/branches'') None s"

definition list_merge_requests ::
  "'s transport \<Rightarrow> env \<Rightarrow> client \<Rightarrow> json \<Rightarrow> 's \<Rightarrow> ((error + json) \<times> 's) option" where
  "list_merge_requests send E cl proj s =
     GitLabClient_get send cl
       (''/api/v4/projects/'' @ quote_plus E (py_str E proj) @ ''/merge_requests'')
       (Some [(''state'', JStr ''all'')]) s"

text \<open>
  To speak about a sequence of pages: the first request of a call of \<^verbatim>\<open>_get\<close>, the
  requests that a sequence of responses makes the loop send (each page's next-page header
  becomes the \<^verbatim>\<open>page\<close> parameter of the request after it), what the remote side
  answers to a sequence of requests, and the elements of a list-valued body.
\<close>

definition first_request :: "client \<Rightarrow> string \<Rightarrow> (string \<times> json) list option \<Rightarrow> request" where
  "first_request cl path params =
     \<lparr>req_url = base_url cl @ path,
      req_params = setdefault (case params of None \<Rightarrow> [] | Some p \<Rightarrow> p) ''per_page'' (JNum 100),
      req_token = token cl, req_verify = verify cl\<rparr>"

fun page_requests :: "request \<Rightarrow> response list \<Rightarrow> request list" where
  "page_requests q [] = []"
| "page_requests q (p # pages) =
     q # page_requests (q\<lparr>req_params := dict_set (req_params q) ''page'' (JStr (next_page_of p))\<rparr>) pages"

fun serve :: "'s transport \<Rightarrow> 's \<Rightarrow> request list \<Rightarrow> (error + response) list \<times> 's" where
  "serve send s [] = ([], s)"
| "serve send s (q # qs) =
     (case send s q of (r, s1) \<Rightarrow> (case serve send s1 qs of (rs, s2) \<Rightarrow> (r # rs, s2)))"

definition body_items :: "response \<Rightarrow> json list" where
  "body_items r = (case json_body r of Inr (JArr xs) \<Rightarrow> xs | _ \<Rightarrow> [])"

section \<open>The collector\<close>

text \<open>The parsed command line.\<close>

record args =
  gitlab_url :: "string option"
  private_token :: "string option"
  project :: string
  repo_path :: string
  output_format :: string
  output_file :: string
  months_back :: "int option"
  date_range :: "(string \<times> string) option"
  insecure :: bool

text \<open>Sequencing of two steps of which the first may raise.\<close>

definition and_then :: "error + 'a \<Rightarrow> ('a \<Rightarrow> error + 'b) \<Rightarrow> error + 'b" where
  "and_then m f = (case m of Inl e \<Rightarrow> Inl e | Inr x \<Rightarrow> f x)"

text \<open>
  \<^verbatim>\<open>datetime.now() - timedelta(days=d)\<close>: \<^verbatim>\<open>timedelta\<close> takes at most 999999999 days
  in either direction, and the difference must stay between year 1 and year 9999;
  otherwise \<^verbatim>\<open>OverflowError\<close>.
\<close>

definition minus_days :: "datetime \<Rightarrow> int \<Rightarrow> error + datetime" where
  "minus_days d n =
     (if n < - 999999999 \<or> 999999999 < n then Inl OverflowError
      else let w = wall d - n * 86400000000
           in if w < 0 \<or> 315537897600000000 \<le> w then Inl OverflowError
              else Inr (d\<lparr>wall := w\<rparr>))"

text \<open>
  The filter window, computed before the first \<^verbatim>\<open>try\<close>: the month count gives a start
  bound; an explicit range then overwrites both bounds with whatever its two texts parse
  to.
\<close>

definition filter_window :: "env \<Rightarrow> args \<Rightarrow> error + (datetime option \<times> datetime option)" where
  "filter_window E a =
     and_then
       (case months_back a of
          None \<Rightarrow> Inr None
        | Some n \<Rightarrow>
            if n = 0 then Inr None
            else and_then (minus_days (now E) (30 * n)) (\<lambda>d. Inr (Some d)))
       (\<lambda>start_date.
          case date_range a of
            None \<Rightarrow> Inr (start_date, None)
          | Some (d0, d1) \<Rightarrow>
              and_then (parse_date_any E (JStr d0)) (\<lambda>st.
              and_then (parse_date_any E (JStr d1)) (\<lambda>en. Inr (st, en))))"

text \<open>\<^verbatim>\<open>v.replace(old, new)\<close> on a value: only a string has the method.\<close>

definition str_replace :: "json \<Rightarrow> char \<Rightarrow> char \<Rightarrow> error + json" where
  "str_replace v old new =
     (case v of JStr s \<Rightarrow> Inr (JStr (replace_char old new s)) | _ \<Rightarrow> Inl AttributeError)"

text \<open>\<^verbatim>\<open>for x in v\<close>: the elements of a list, the keys of a dict, the characters of a string.\<close>

definition py_iter :: "json \<Rightarrow> error + json list" where
  "py_iter v =
     (case v of
        JArr xs \<Rightarrow> Inr xs
      | JObj kvs \<Rightarrow> Inr (map (\<lambda>kv. JStr (fst kv)) kvs)
      | JStr s \<Rightarrow> Inr (map (\<lambda>c. JStr [c]) s)
      | _ \<Rightarrow> Inl TypeError)"

text \<open>
  The bodies of the three remote loops, for one item: \<^term>\<open>Inr None\<close> is \<^verbatim>\<open>continue\<close>,
  \<^term>\<open>Inr (Some ev)\<close> is \<^verbatim>\<open>rows.append(ev)\<close>, \<^term>\<open>Inl e\<close> an exception that leaves the
  loop.
\<close>

definition commit_row :: "env \<Rightarrow> datetime option \<Rightarrow> datetime option \<Rightarrow> json \<Rightarrow> error + event option" where
  "commit_row E start end c =
     and_then (dict_get c ''created_at'' JNull) (\<lambda>created.
     and_then (if truthy created then Inr created else dict_get c ''committed_date'' JNull) (\<lambda>raw.
     let ts = normalize_date E raw in
     and_then (within_range E ts start end) (\<lambda>inside.
     if \<not> inside then Inr None
     else
       and_then (dict_get c ''author_name'' JNull) (\<lambda>author_name.
       and_then (dict_get c ''author_email'' JNull) (\<lambda>author_email.
       and_then (dict_get c ''id'' JNull) (\<lambda>sha.
       and_then (dict_get c ''message'' (JStr [])) (\<lambda>m.
       and_then (str_replace m (CHR 0x0A) CHR '' '') (\<lambda>message.
       and_then (dict_get c ''web_url'' (JStr [])) (\<lambda>web_url.
       Inr (Some [(''source'', JStr ''gitlab_commit''),
                  (''action_type'', JStr ''commit''),
                  (''user_name'', author_name),
                  (''user_email'', author_email),
                  (''timestamp'', ts),
                  (''ref'', JStr []),
                  (''commit_sha'', sha),
                  (''message'', message),
                  (''url'', web_url)]))))))))))"

definition branch_row :: "env \<Rightarrow> datetime option \<Rightarrow> datetime option \<Rightarrow> json \<Rightarrow> error + event option" where
  "branch_row E start end b =
     and_then (dict_get b ''commit'' (JObj [])) (\<lambda>commit.
     and_then (dict_get commit ''committed_date'' JNull) (\<lambda>raw.
     let ts = normalize_date E raw in
     and_then (within_range E ts start end) (\<lambda>inside.
     if \<not> inside then Inr None
     else
       and_then (dict_get b ''name'' JNull) (\<lambda>name.
       and_then (dict_get commit ''id'' JNull) (\<lambda>sha.
       and_then (dict_get commit ''message'' (JStr [])) (\<lambda>message.
       and_then (dict_get b ''web_url'' (JStr [])) (\<lambda>web_url.
       Inr (Some [(''source'', JStr ''gitlab_branch''),
                  (''action_type'', JStr ''branch''),
                  (''user_name'', JStr []),
                  (''user_email'', JStr []),
                  (''timestamp'', ts),
                  (''ref'', name),
                  (''commit_sha'', sha),
                  (''message'', message),
                  (''url'', web_url)]))))))))"

definition merge_request_row :: "env \<Rightarrow> datetime option \<Rightarrow> datetime option \<Rightarrow> json \<Rightarrow> error + event option" where
  "merge_request_row E start end m =
     and_then (dict_get m ''updated_at'' JNull) (\<lambda>raw.
     let ts = normalize_date E raw in
     and_then (within_range E ts start end) (\<lambda>inside.
     if \<not> inside then Inr None
     else
       and_then (dict_get m ''state'' JNull) (\<lambda>state.
       and_then (dict_get m ''author'' JNull) (\<lambda>author.
       and_then (dict_get (if truthy author then author else JObj []) ''name'' JNull) (\<lambda>author_name.
       and_then (dict_get m ''source_branch'' JNull) (\<lambda>source_branch.
       and_then (dict_get m ''target_branch'' JNull) (\<lambda>target_branch.
       and_then (dict_get m ''sha'' (JStr [])) (\<lambda>sha.
       and_then (dict_get m ''title'' (JStr [])) (\<lambda>title.
       and_then (dict_get m ''web_url'' (JStr [])) (\<lambda>web_url.
       Inr (Some [(''source'', JStr ''gitlab_merge_request''),
                  (''action_type'', JStr (''merge_request_'' @ py_str E state)),
                  (''user_name'', author_name),
                  (''user_email'', JStr []),
                  (''timestamp'', ts),
                  (''ref'', JStr (py_str E source_branch @ ''->'' @ py_str E target_branch)),
                  (''commit_sha'', sha),
                  (''message'', title),
                  (''url'', web_url)])))))))))))"

text \<open>The body of the two local loops: the entry is kept as it is when its timestamp passes.\<close>

definition local_row :: "env \<Rightarrow> datetime option \<Rightarrow> datetime option \<Rightarrow> event \<Rightarrow> error + event option" where
  "local_row E start end entry =
     (let ts = (case map_of entry ''timestamp'' of Some v \<Rightarrow> v | None \<Rightarrow> JNull)
      in and_then (within_range E ts start end) (\<lambda>inside.
         if \<not> inside then Inr None else Inr (Some entry)))"

text \<open>
  A \<^verbatim>\<open>for\<close> loop that appends to \<^verbatim>\<open>rows\<close>: it returns the exception that ended it, if
  any, and \<^verbatim>\<open>rows\<close> as it stands then. What was appended before an exception stays.
\<close>

fun for_rows :: "('a \<Rightarrow> error + event option) \<Rightarrow> 'a list \<Rightarrow> event list \<Rightarrow> error option \<times> event list" where
  "for_rows body [] rows = (None, rows)"
| "for_rows body (x # xs) rows =
     (case body x of
        Inl e \<Rightarrow> (Some e, rows)
      | Inr None \<Rightarrow> for_rows body xs rows
      | Inr (Some ev) \<Rightarrow> for_rows body xs (rows @ [ev]))"

text \<open>
  One remote \<^verbatim>\<open>try\<close> block: the listing, then the loop. The \<^verbatim>\<open>except\<close> clause prints
  the exception and goes on with \<^verbatim>\<open>rows\<close> as it is. \<^term>\<open>None\<close> is a listing that never
  returns.
\<close>

definition remote_step ::
  "('s \<Rightarrow> ((error + json) \<times> 's) option) \<Rightarrow> (json \<Rightarrow> error + event option) \<Rightarrow> event list \<Rightarrow> 's \<Rightarrow>
     (event list \<times> 's) option" where
  "remote_step listing body rows s =
     (case listing s of
        None \<Rightarrow> None
      | Some (Inl e, s1) \<Rightarrow> Some (rows, s1)
      | Some (Inr found, s1) \<Rightarrow>
          (case py_iter found of
             Inl e \<Rightarrow> Some (rows, s1)
           | Inr items \<Rightarrow> Some (snd (for_rows body items rows), s1)))"

text \<open>One local \<^verbatim>\<open>try\<close> block.\<close>

definition local_step :: "error + event list \<Rightarrow> (event \<Rightarrow> error + event option) \<Rightarrow> event list \<Rightarrow> event list" where
  "local_step parsed body rows =
     (case parsed of
        Inl e \<Rightarrow> rows
      | Inr entries \<Rightarrow> snd (for_rows body entries rows))"

text \<open>Resolving the project: any exception falls back to the given path or id.\<close>

definition resolve_project :: "args \<Rightarrow> error + json \<Rightarrow> json" where
  "resolve_project a res =
     (case and_then res (\<lambda>proj. subscript proj ''id'') of
        Inl e \<Rightarrow> JStr (project a)
      | Inr proj_id \<Rightarrow> proj_id)"

definition remote_enabled :: "args \<Rightarrow> bool" where
  "remote_enabled a =
     (case gitlab_url a of
        None \<Rightarrow> False
      | Some u \<Rightarrow> (case private_token a of None \<Rightarrow> False | Some t \<Rightarrow> u \<noteq> [] \<and> t \<noteq> []))"

definition make_client :: "args \<Rightarrow> client" where
  "make_client a =
     GitLabClient (case gitlab_url a of Some u \<Rightarrow> u | None \<Rightarrow> [])
       (case private_token a of Some t \<Rightarrow> t | None \<Rightarrow> []) (\<not> insecure a)"

definition collect_data ::
  "'s transport \<Rightarrow> env \<Rightarrow> args \<Rightarrow> 's \<Rightarrow> ((error + event list) \<times> 's) option" where
  "collect_data send E a s =
     (case filter_window E a of
        Inl e \<Rightarrow> Some (Inl e, s)
      | Inr (start_date, end_date) \<Rightarrow>
          (case
             (if remote_enabled a then
                (let cl = make_client a in
                 case get_project_by_path send E cl (project a) s of
                   None \<Rightarrow> None
                 | Some (res, s0) \<Rightarrow>
                     (let proj_id = resolve_project a res in
                      case remote_step (list_commits send E cl proj_id)
                             (commit_row E start_date end_date) [] s0 of
                        None \<Rightarrow> None
                      | Some (rows1, s1) \<Rightarrow>
                          (case remote_step (list_branches send E cl proj_id)
                                  (branch_row E start_date end_date) rows1 s1 of
                             None \<Rightarrow> None
                           | Some (rows2, s2) \<Rightarrow>
                               remote_step (list_merge_requests send E cl proj_id)
                                 (merge_request_row E start_date end_date) rows2 s2)))
              else Some ([], s)) of
             None \<Rightarrow> None
           | Some (rows3, s3) \<Rightarrow>
               Some (Inr
                 (if repo_path a = [] then rows3
                  else
                    (let rows4 = local_step (parse_git_log E (repo_path a))
                                   (local_row E start_date end_date) rows3
                     in local_step (parse_reflog E (repo_path a))
                          (local_row E start_date end_date) rows4)), s3)))"

section \<open>What a sub-step contributes\<close>

text \<open>
  Specification side. The events that a loop over \<open>items\<close> leaves behind when its body is
  \<open>body\<close>: those of the items before the first one on which the body raises, of all items
  when it never raises. The contribution of a sub-step is nothing when its listing raised
  (or gave something that cannot be iterated), and these events otherwise.
\<close>

definition kept :: "('a \<Rightarrow> error + event option) \<Rightarrow> 'a list \<Rightarrow> event list" where
  "kept body items =
     List.map_filter (\<lambda>x. case body x of Inr (Some ev) \<Rightarrow> Some ev | _ \<Rightarrow> None)
       (takeWhile (\<lambda>x. \<not> isl (body x)) items)"

definition remote_contribution :: "(json \<Rightarrow> error + event option) \<Rightarrow> error + json \<Rightarrow> event list" where
  "remote_contribution body res =
     (case res of
        Inl e \<Rightarrow> []
      | Inr found \<Rightarrow> (case py_iter found of Inl e \<Rightarrow> [] | Inr items \<Rightarrow> kept body items))"

definition local_contribution :: "(event \<Rightarrow> error + event option) \<Rightarrow> error + event list \<Rightarrow> event list" where
  "local_contribution body parsed =
     (case parsed of Inl e \<Rightarrow> [] | Inr entries \<Rightarrow> kept body entries)"

definition local_part :: "env \<Rightarrow> args \<Rightarrow> datetime option \<Rightarrow> datetime option \<Rightarrow> event list" where
  "local_part E a start end =
     (if repo_path a = [] then []
      else local_contribution (local_row E start end) (parse_git_log E (repo_path a)) @
           local_contribution (local_row E start end) (parse_reflog E (repo_path a)))"

text \<open>The nine fields of an audit event, in the order in which every source writes them.\<close>

definition event_fields :: "string list" where
  "event_fields =
     [''source'', ''action_type'', ''user_name'', ''user_email'', ''timestamp'', ''ref'',
      ''commit_sha'', ''message'', ''url'']"

section \<open>The CSV exporter\<close>

text \<open>
  \<^verbatim>\<open>write_csv\<close> hands its rows to \<^verbatim>\<open>csv.DictWriter\<close> of the Python standard library with
  the default dialect \<^verbatim>\<open>excel\<close>: delimiter \<^verbatim>\<open>,\<close>, quote character \<^verbatim>\<open>"\<close>, doubled quotes
  inside quoted fields, minimal quoting, line terminator CR LF. The writer and the reader
  below follow that module for this dialect.

  A field is written as follows: \<^verbatim>\<open>None\<close> as the empty text, a string as it is, any other
  value through \<^verbatim>\<open>str\<close>.
\<close>

definition csv_text :: "env \<Rightarrow> json \<Rightarrow> string" where
  "csv_text E v = (case v of JNull \<Rightarrow> [] | JStr s \<Rightarrow> s | _ \<Rightarrow> py_str E v)"

text \<open>
  A field is quoted when it contains the delimiter, the quote character or a character of
  the line terminator; inside the quotes every quote character is doubled.
\<close>

definition special :: "char \<Rightarrow> bool" where
  "special c = (c = CHR '','' \<or> c = CHR 0x22 \<or> c = CHR 0x0D \<or> c = CHR 0x0A)"

definition needs_quotes :: "string \<Rightarrow> bool" where
  "needs_quotes f = list_ex special f"

definition double_quotes :: "string \<Rightarrow> string" where
  "double_quotes f = concat (map (\<lambda>c. if c = CHR 0x22 then [CHR 0x22, CHR 0x22] else [c]) f)"

definition quoted :: "string \<Rightarrow> string" where
  "quoted f = CHR 0x22 # double_quotes f @ [CHR 0x22]"

definition csv_field :: "string \<Rightarrow> string" where
  "csv_field f = (if needs_quotes f then quoted f else f)"

fun join_fields :: "string list \<Rightarrow> string" where
  "join_fields [] = []"
| "join_fields [f] = csv_field f"
| "join_fields (f # g # fs) = csv_field f @ CHR '','' # join_fields (g # fs)"

text \<open>
  \<^verbatim>\<open>writer.writerow\<close>: the fields joined by the delimiter, then the line terminator. A
  record that would be empty although it has a field (a single empty field) is written as
  a pair of quotes.
\<close>

definition csv_writerow :: "string list \<Rightarrow> string" where
  "csv_writerow fs =
     (if fs \<noteq> [] \<and> join_fields fs = [] then quoted [] else join_fields fs) @ [CHR 0x0D, CHR 0x0A]"

text \<open>
  \<^verbatim>\<open>write_csv\<close>: nothing is written for an empty list (\<^term>\<open>None\<close>); otherwise the text of
  the file is the header row of the sorted field names followed by one row per event, a
  field that an event lacks being the empty string.
\<close>

definition columns :: "event list \<Rightarrow> string list" where
  "columns rows = sorted_list_of_set (set (concat (map (map fst) rows)))"

definition csv_row :: "env \<Rightarrow> string list \<Rightarrow> event \<Rightarrow> string list" where
  "csv_row E keys r = map (\<lambda>k. csv_text E (case map_of r k of None \<Rightarrow> JStr [] | Some v \<Rightarrow> v)) keys"

definition write_csv :: "env \<Rightarrow> event list \<Rightarrow> string option" where
  "write_csv E rows =
     (if rows = [] then None
      else (let keys = columns rows
            in Some (csv_writerow keys @ concat (map (\<lambda>r. csv_writerow (csv_row E keys r)) rows))))"

text \<open>
  \<^verbatim>\<open>csv.reader\<close> on the text of a file opened with \<^verbatim>\<open>newline=''\<close>. The reader is the state
  machine of the module: it is fed the characters of each physical line (a line ends at
  LF, at CR LF, or at a CR that no LF follows) and then an end-of-line mark, here
  \<^term>\<open>None\<close>; a record is complete when the mark leaves it in \<^verbatim>\<open>START_RECORD\<close>. The
  dialect is not strict, has no escape character and does not skip initial spaces.
\<close>

datatype parser_state =
    START_RECORD
  | START_FIELD
  | IN_FIELD
  | IN_QUOTED_FIELD
  | QUOTE_IN_QUOTED_FIELD
  | EAT_CRNL

record parser =
  state :: parser_state
  field :: string
  rec_fields :: "string list"

definition parse_reset :: parser where
  "parse_reset = \<lparr>state = START_RECORD, field = [], rec_fields = []\<rparr>"

definition parse_save_field :: "parser \<Rightarrow> parser" where
  "parse_save_field p = p\<lparr>rec_fields := rec_fields p @ [field p], field := []\<rparr>"

definition parse_add_char :: "parser \<Rightarrow> char \<Rightarrow> parser" where
  "parse_add_char p c = p\<lparr>field := field p @ [c]\<rparr>"

definition is_newline :: "char option \<Rightarrow> bool" where
  "is_newline c = (c = None \<or> c = Some (CHR 0x0A) \<or> c = Some (CHR 0x0D))"

definition after_newline :: "char option \<Rightarrow> parser_state" where
  "after_newline c = (if c = None then START_RECORD else EAT_CRNL)"

definition start_field :: "parser \<Rightarrow> char option \<Rightarrow> error + parser" where
  "start_field p c =
     (if is_newline c then Inr ((parse_save_field p)\<lparr>state := after_newline c\<rparr>)
      else if c = Some (CHR 0x22) then Inr (p\<lparr>state := IN_QUOTED_FIELD\<rparr>)
      else if c = Some (CHR '','') then Inr (parse_save_field p)
      else case c of
             Some x \<Rightarrow> Inr ((parse_add_char p x)\<lparr>state := IN_FIELD\<rparr>)
           | None \<Rightarrow> Inr p)"

definition parse_process_char :: "parser \<Rightarrow> char option \<Rightarrow> error + parser" where
  "parse_process_char p c =
     (case state p of
        START_RECORD \<Rightarrow>
          (if c = None then Inr p
           else if c = Some (CHR 0x0A) \<or> c = Some (CHR 0x0D) then Inr (p\<lparr>state := EAT_CRNL\<rparr>)
           else start_field (p\<lparr>state := START_FIELD\<rparr>) c)
      | START_FIELD \<Rightarrow> start_field p c
      | IN_FIELD \<Rightarrow>
          (if is_newline c then Inr ((parse_save_field p)\<lparr>state := after_newline c\<rparr>)
           else if c = Some (CHR '','') then Inr ((parse_save_field p)\<lparr>state := START_FIELD\<rparr>)
           else case c of Some x \<Rightarrow> Inr (parse_add_char p x) | None \<Rightarrow> Inr p)
      | IN_QUOTED_FIELD \<Rightarrow>
          (if c = None then Inr p
           else if c = Some (CHR 0x22) then Inr (p\<lparr>state := QUOTE_IN_QUOTED_FIELD\<rparr>)
           else case c of Some x \<Rightarrow> Inr (parse_add_char p x) | None \<Rightarrow> Inr p)
      | QUOTE_IN_QUOTED_FIELD \<Rightarrow>
          (if c = Some (CHR 0x22) then
             (case c of Some x \<Rightarrow> Inr ((parse_add_char p x)\<lparr>state := IN_QUOTED_FIELD\<rparr>) | None \<Rightarrow> Inr p)
           else if c = Some (CHR '','') then Inr ((parse_save_field p)\<lparr>state := START_FIELD\<rparr>)
           else if is_newline c then Inr ((parse_save_field p)\<lparr>state := after_newline c\<rparr>)
           else case c of Some x \<Rightarrow> Inr ((parse_add_char p x)\<lparr>state := IN_FIELD\<rparr>) | None \<Rightarrow> Inr p)
      | EAT_CRNL \<Rightarrow>
          (if c = Some (CHR 0x0A) \<or> c = Some (CHR 0x0D) then Inr p
           else if c = None then Inr (p\<lparr>state := START_RECORD\<rparr>)
           else Inl ValueError))"

text \<open>Whether the character \<open>c\<close>, followed by \<open>rest\<close>, is the last one of its physical line.\<close>

definition ends_line :: "char \<Rightarrow> string \<Rightarrow> bool" where
  "ends_line c rest =
     (c = CHR 0x0A \<or> (c = CHR 0x0D \<and> (case rest of [] \<Rightarrow> True | d # ds \<Rightarrow> d \<noteq> CHR 0x0A)))"

text \<open>
  The records of a text. \<open>pending\<close> tells that characters of a line have been fed whose
  end-of-line mark is still due. At the end of the input a record that is still open inside
  a quoted field is closed and returned.
\<close>

fun read_records :: "parser \<Rightarrow> string list list \<Rightarrow> bool \<Rightarrow> string \<Rightarrow> error + string list list" where
  "read_records p recs pending [] =
     (case (if pending then parse_process_char p None else Inr p) of
        Inl e \<Rightarrow> Inl e
      | Inr p1 \<Rightarrow>
          if pending \<and> state p1 = START_RECORD then Inr (recs @ [rec_fields p1])
          else if field p1 \<noteq> [] \<or> state p1 = IN_QUOTED_FIELD
               then Inr (recs @ [rec_fields (parse_save_field p1)])
               else Inr recs)"
| "read_records p recs pending (c # cs) =
     (case parse_process_char p (Some c) of
        Inl e \<Rightarrow> Inl e
      | Inr p1 \<Rightarrow>
          if ends_line c cs then
            (case parse_process_char p1 None of
               Inl e \<Rightarrow> Inl e
             | Inr p2 \<Rightarrow>
                 if state p2 = START_RECORD then read_records parse_reset (recs @ [rec_fields p2]) False cs
                 else read_records p2 recs False cs)
          else read_records p1 recs True cs)"

definition csv_reader :: "string \<Rightarrow> error + string list list" where
  "csv_reader text = read_records parse_reset [] False text"

section \<open>Concrete inputs\<close>

text \<open>A handful of instants and two small environments, one without and one with the flexible parser.\<close>

definition d_2025_01_01 :: datetime where
  "d_2025_01_01 = \<lparr>wall = 63871286400000000, utcoffset = None\<rparr>"

definition d_2025_06_01 :: datetime where
  "d_2025_06_01 = \<lparr>wall = 63884332800000000, utcoffset = None\<rparr>"

definition d_2025_06_01_utc :: datetime where
  "d_2025_06_01_utc = \<lparr>wall = 63884332800000000, utcoffset = Some 0\<rparr>"

definition d_2025_12_31 :: datetime where
  "d_2025_12_31 = \<lparr>wall = 63902736000000000, utcoffset = None\<rparr>"

definition demo_fromisoformat :: "string \<Rightarrow> error + datetime" where
  "demo_fromisoformat s =
     (if s = ''2025-01-01'' then Inr d_2025_01_01
      else if s = ''2025-06-01'' then Inr d_2025_06_01
      else if s = ''2025-06-01T00:00:00+00:00'' then Inr d_2025_06_01_utc
      else if s = ''2025-12-31'' then Inr d_2025_12_31
      else if s = ''2025-W22-7'' then Inr d_2025_06_01
      else Inl ValueError)"

text \<open>The output of \<^verbatim>\<open>git\<close> in the repository \<^verbatim>\<open>/repo\<close>: three log lines, the second one
  without separators, and two reflog lines.\<close>

definition demo_git_log :: string where
  "demo_git_log =
     ''1a2b|Ann|ann@example.org|2025-06-01|fix a|b|c'' @ [CHR 0x0A] @
     ''no separators here'' @ [CHR 0x0A] @
     ''3c4d|Bob|bob@example.org|2025-01-01|init''"

definition demo_git_reflog :: string where
  "demo_git_reflog =
     ''1a2b HEAD@'' @ ''{0}: commit: fix'' @ [CHR 0x0A] @
     ''3c4d HEAD@'' @ ''{1}: commit (initial): init'' @ [CHR 0x0A]"

definition demo_check_output :: "string \<Rightarrow> string list \<Rightarrow> error + string" where
  "demo_check_output cwd argv =
     (if cwd = ''/repo'' \<and> argv = [''git'', ''log'', ''--all'', ''--pretty=format:%H|%an|%ae|%ad|%s'', ''--date=iso'']
      then Inr demo_git_log
      else if cwd = ''/repo'' \<and> argv = [''git'', ''reflog'', ''--date=iso'']
      then Inr demo_git_reflog
      else Inl CalledProcessError)"

definition demo_env :: env where
  "demo_env = \<lparr>dtparser = None, fromisoformat = demo_fromisoformat,
     isoformat = (\<lambda>d. []), now = \<lparr>wall = 63898632000000000, utcoffset = None\<rparr>,
     quote_plus = (\<lambda>s. concat (map (\<lambda>c. if c = CHR ''/'' then ''%2F'' else [c]) s)), check_output = demo_check_output,
     py_repr = (\<lambda>v. [])\<rparr>"

definition demo_dateutil :: "bool \<Rightarrow> string \<Rightarrow> error + datetime" where
  "demo_dateutil dayfirst s =
     (if s = ''01-06-2025'' \<and> dayfirst then Inr d_2025_06_01
      else if s = ''01-06-2025'' then Inr \<lparr>wall = 63871718400000000, utcoffset = None\<rparr>
      else Inl ValueError)"

definition demo_env_dateutil :: env where
  "demo_env_dateutil = demo_env\<lparr>dtparser := Some demo_dateutil\<rparr>"


text \<open>
  A remote side that plays a script: it answers the requests it receives with the
  responses of a list, in order, whatever is asked, keeps a log of the requests, and
  refuses the connection once the list is used up.
\<close>

definition script_send :: "(response list \<times> request list) transport" where
  "script_send s q =
     (case fst s of
        [] \<Rightarrow> (Inl ConnectionError, ([], snd s @ [q]))
      | r # rs \<Rightarrow> (Inr r, (rs, snd s @ [q])))"

definition json_page :: "json \<Rightarrow> string option \<Rightarrow> response" where
  "json_page body next_page =
     \<lparr>ok = True, status_code = 200, body_text = [], json_body = Inr body,
      headers_get = (\<lambda>h. if h = ''X-Next-Page'' then next_page else None)\<rparr>"

definition failure_page :: response where
  "failure_page =
     \<lparr>ok = False, status_code = 500, body_text = ''Internal Server Error'',
      json_body = Inl JSONDecodeError, headers_get = (\<lambda>h. None)\<rparr>"

definition project_page :: response where
  "project_page = json_page (JObj [(''id'', JNum 42)]) None"

definition commit_a :: json where
  "commit_a = JObj [(''id'', JStr ''1a2b''), (''author_name'', JStr ''Ann''),
     (''author_email'', JStr ''ann@example.org''), (''created_at'', JStr ''2025-06-01''),
     (''message'', JStr ''fix a|b|c''), (''web_url'', JStr ''https://gitlab.example.com/c/1a2b'')]"

definition commit_b :: json where
  "commit_b = JObj [(''id'', JStr ''3c4d''), (''author_name'', JStr ''Bob''),
     (''author_email'', JStr ''bob@example.org''), (''created_at'', JStr ''2025-01-01''),
     (''message'', JStr ''init''), (''web_url'', JStr ''https://gitlab.example.com/c/3c4d'')]"

definition commit_utc :: json where
  "commit_utc = JObj [(''id'', JStr ''9a0b''), (''author_name'', JStr ''Ann''),
     (''author_email'', JStr ''ann@example.org''), (''created_at'', JStr ''2025-06-01T00:00:00+00:00''),
     (''message'', JStr ''late'')]"

definition commit_without_author :: json where
  "commit_without_author = JObj [(''id'', JStr ''5e6f''), (''created_at'', JStr ''2025-06-01''),
     (''message'', JStr ''tidy'')]"

definition commit_null_message :: json where
  "commit_null_message = JObj [(''id'', JStr ''7a8b''), (''author_name'', JStr ''Ann''),
     (''message'', JNull)]"

definition branch_main :: json where
  "branch_main = JObj [(''name'', JStr ''main''),
     (''commit'', JObj [(''id'', JStr ''1a2b''), (''committed_date'', JStr ''2025-06-01''),
        (''message'', JStr ''fix a|b|c'')])]"

definition merge_request_draft :: json where
  "merge_request_draft = JObj [(''state'', JStr ''opened''), (''author'', JObj [(''name'', JStr ''Ann'')]),
     (''source_branch'', JStr ''dev''), (''target_branch'', JStr ''main''), (''sha'', JNull),
     (''title'', JStr ''Draft: add x''), (''updated_at'', JStr ''2025-06-01'')]"

definition commits_page_1 :: response where
  "commits_page_1 = json_page (JArr [commit_a]) (Some ''2'')"

definition commits_page_2 :: response where
  "commits_page_2 = json_page (JArr [commit_b]) None"

definition demo_client :: client where
  "demo_client = GitLabClient ''https://gitlab.example.com/'' ''t0ken'' True"

definition demo_args :: args where
  "demo_args =
     \<lparr>gitlab_url = Some ''https://gitlab.example.com/'', private_token = Some ''t0ken'',
      project = ''group/app'', repo_path = ''/repo'', output_format = ''csv'',
      output_file = ''audit.csv'', months_back = None, date_range = None, insecure = False\<rparr>"

definition demo_args_range :: args where
  "demo_args_range = demo_args\<lparr>date_range := Some (''2025-06-01'', ''2025-12-31'')\<rparr>"

definition demo_script :: "response list" where
  "demo_script =
     [project_page, json_page (JArr [commit_a, commit_without_author, commit_b]) None,
      json_page (JArr [branch_main]) None, json_page (JArr [merge_request_draft]) None]"

text \<open>Two events with different fields; one message holds a comma, quotes and a line feed.\<close>

definition demo_events :: "event list" where
  "demo_events =
     [[(''source'', JStr ''local_commit''),
       (''message'', JStr (''fix a,b '' @ [CHR 0x22] @ ''c'' @ [CHR 0x22, CHR 0x0A] @ ''more'')),
       (''user_name'', JNull)],
      [(''source'', JStr ''local_reflog''), (''url'', JStr [])]]"

section \<open>The date filter\<close>

lemma parse_date_any_str: "\<exists>r. parse_date_any E (JStr s) = Inr r"
  by (simp add: parse_date_any_def Let_def split: option.splits sum.splits)

text \<open>
  Claim C4. With neither bound set, \<^verbatim>\<open>within_range\<close> answers \<^verbatim>\<open>True\<close> for every
  timestamp string (the empty one and the unparseable ones too) and for an absent
  timestamp; with at least one bound set it answers \<^verbatim>\<open>False\<close> for the empty and for
  the absent timestamp.
\<close>

theorem within_range_no_bounds_or_empty:
  "within_range E (JStr s) None None = Inr True \<and>
   within_range E JNull None None = Inr True \<and>
   (start \<noteq> None \<or> end \<noteq> None \<longrightarrow>
      within_range E (JStr []) start end = Inr False \<and> within_range E JNull start end = Inr False)"
  using parse_date_any_str[of E s]
  by (auto simp: within_range_def split: option.splits sum.splits)

text \<open>
  The statement at an unparseable timestamp without bounds, and at the empty timestamp
  under a start bound and under an end bound.
\<close>

theorem within_range_no_bounds_or_empty_witness:
  "within_range demo_env (JStr ''not-a-date'') None None = Inr True \<and>
   within_range demo_env (JStr []) None None = Inr True \<and>
   Some d_2025_01_01 \<noteq> None \<and>
   within_range demo_env (JStr []) (Some d_2025_01_01) None = Inr False \<and>
   within_range demo_env (JStr []) None (Some d_2025_12_31) = Inr False"
  using within_range_no_bounds_or_empty[of demo_env "''not-a-date''" "Some d_2025_01_01" None]
    within_range_no_bounds_or_empty[of demo_env "[]" None "Some d_2025_12_31"]
  by simp

text \<open>
  A non-empty timestamp string that does not parse never gets an answer under a bound:
  the comparison of \<^verbatim>\<open>None\<close> with the bound raises.
\<close>

lemma within_range_unparseable:
  assumes "s \<noteq> []" and "parse_date_any E (JStr s) = Inr None"
    and "start \<noteq> None \<or> end \<noteq> None"
  shows "within_range E (JStr s) start end = Inl TypeError"
  using assms
  by (cases start; cases "end") (simp_all add: within_range_def py_lt_def py_gt_def)

text \<open>
  Claim C2. The claim asks for \<^verbatim>\<open>False\<close> on a non-empty timestamp that cannot be parsed
  while a bound is set. \<^verbatim>\<open>parse_date_any\<close> swallows the parser's exception and
  returns \<^verbatim>\<open>None\<close>, so the \<^verbatim>\<open>except\<close> branch of \<^verbatim>\<open>within_range\<close> that would return
  \<^verbatim>\<open>False\<close> is not reached; the comparison of \<^verbatim>\<open>None\<close> with the bound then raises
  \<^verbatim>\<open>TypeError\<close>. Here the code is run on the timestamp \<^verbatim>\<open>not-a-date\<close> under a start
  bound and under an end bound, without and with the flexible parser.
\<close>

theorem within_range_unparseable_raises:
  "parse_date_any demo_env (JStr ''not-a-date'') = Inr None \<and>
   within_range demo_env (JStr ''not-a-date'') (Some d_2025_01_01) None = Inl TypeError \<and>
   within_range demo_env (JStr ''not-a-date'') None (Some d_2025_12_31) = Inl TypeError \<and>
   parse_date_any demo_env_dateutil (JStr ''not-a-date'') = Inr None \<and>
   within_range demo_env_dateutil (JStr ''not-a-date'') (Some d_2025_01_01) (Some d_2025_12_31) =
     Inl TypeError"
  by (simp add: within_range_def parse_date_any_def demo_env_def demo_env_dateutil_def
      demo_fromisoformat_def demo_dateutil_def replace_char_def py_lt_def py_gt_def)

text \<open>
  Claim C3 as stated fails. The flexible parser is available and rejects the week date
  \<^verbatim>\<open>2025/W22/7\<close>; strict ISO parsing accepts the substituted text; \<^verbatim>\<open>parse_date_any\<close>
  returns \<^verbatim>\<open>None\<close> all the same, because the \<^verbatim>\<open>except\<close> branch of the flexible parse
  returns at once.
\<close>

theorem parse_date_any_no_fallback_counterexample:
  "dtparser demo_env_dateutil = Some demo_dateutil \<and>
   demo_dateutil True (replace_char CHR ''/'' CHR ''-'' ''2025/W22/7'') = Inl ValueError \<and>
   fromisoformat demo_env_dateutil (replace_char CHR ''/'' CHR ''-'' ''2025/W22/7'') = Inr d_2025_06_01 \<and>
   parse_date_any demo_env_dateutil (JStr ''2025/W22/7'') = Inr None"
  by (simp add: parse_date_any_def demo_env_dateutil_def demo_env_def demo_dateutil_def
      demo_fromisoformat_def replace_char_def)

text \<open>
  Claim C3, amended. On a non-empty text exactly one parser is tried, always on the text
  with \<^verbatim>\<open>/\<close> replaced by \<^verbatim>\<open>-\<close>: the flexible parser (day first) when it is available,
  and then its failure gives \<^verbatim>\<open>None\<close> and its success its result; strict ISO parsing only
  when the flexible parser is unavailable, and then \<^verbatim>\<open>None\<close> exactly when that fails.
\<close>

theorem parse_date_any_parser_choice:
  assumes "s \<noteq> []"
  shows "(dtparser E = Some p \<and> p True (replace_char CHR ''/'' CHR ''-'' s) = Inl e \<longrightarrow>
            parse_date_any E (JStr s) = Inr None) \<and>
         (dtparser E = Some p \<and> p True (replace_char CHR ''/'' CHR ''-'' s) = Inr d \<longrightarrow>
            parse_date_any E (JStr s) = Inr (Some d)) \<and>
         (dtparser E = None \<longrightarrow>
            parse_date_any E (JStr s) =
              (case fromisoformat E (replace_char CHR ''/'' CHR ''-'' s) of
                 Inr d' \<Rightarrow> Inr (Some d') | Inl e' \<Rightarrow> Inr None))"
  using assms by (simp add: parse_date_any_def Let_def)

text \<open>
  The three cases at concrete texts: a week date and a day-first date under the flexible
  parser, and the same two texts when only ISO parsing is there.
\<close>

theorem parse_date_any_parser_choice_witness:
  "''2025/W22/7'' \<noteq> [] \<and> dtparser demo_env_dateutil = Some demo_dateutil \<and>
   demo_dateutil True (replace_char CHR ''/'' CHR ''-'' ''2025/W22/7'') = Inl ValueError \<and>
   parse_date_any demo_env_dateutil (JStr ''2025/W22/7'') = Inr None \<and>
   demo_dateutil True (replace_char CHR ''/'' CHR ''-'' ''01/06/2025'') = Inr d_2025_06_01 \<and>
   parse_date_any demo_env_dateutil (JStr ''01/06/2025'') = Inr (Some d_2025_06_01) \<and>
   dtparser demo_env = None \<and>
   parse_date_any demo_env (JStr ''2025/W22/7'') = Inr (Some d_2025_06_01) \<and>
   parse_date_any demo_env (JStr ''01/06/2025'') = Inr None"
  using parse_date_any_parser_choice[of "''2025/W22/7''" demo_env_dateutil demo_dateutil ValueError]
    parse_date_any_parser_choice[of "''01/06/2025''" demo_env_dateutil demo_dateutil _ d_2025_06_01]
    parse_date_any_parser_choice[of "''2025/W22/7''" demo_env]
    parse_date_any_parser_choice[of "''01/06/2025''" demo_env]
  by (simp add: demo_env_dateutil_def demo_env_def demo_dateutil_def
      demo_fromisoformat_def replace_char_def)

text \<open>
  Where Python can order the parsed instant against every set bound (all naive, or all
  aware), the two comparisons of \<^verbatim>\<open>within_range\<close> are inclusive.
\<close>

lemma within_range_inclusive_comparable:
  assumes "s \<noteq> []" and "parse_date_any E (JStr s) = Inr (Some t)"
    and "\<forall>a. start = Some a \<longrightarrow> comparable t a"
    and "\<forall>b. end = Some b \<longrightarrow> comparable t b"
  shows "within_range E (JStr s) start end =
           Inr ((\<forall>a. start = Some a \<longrightarrow> instant a \<le> instant t) \<and>
                (\<forall>b. end = Some b \<longrightarrow> instant t \<le> instant b))"
  using assms
  by (cases start; cases "end") (auto simp: within_range_def py_lt_def py_gt_def split: bool.splits)

lemma within_range_inclusive_examples:
  "within_range demo_env (JStr ''2025-06-01'') (Some d_2025_06_01) (Some d_2025_06_01) = Inr True \<and>
   within_range demo_env (JStr ''2025-01-01'') (Some d_2025_06_01) None = Inr False \<and>
   within_range demo_env (JStr ''2025-06-01'') None (Some d_2025_01_01) = Inr False"
  by (simp add: within_range_def parse_date_any_def demo_env_def demo_fromisoformat_def
      replace_char_def py_lt_def py_gt_def comparable_def instant_def d_2025_01_01_def
      d_2025_06_01_def)

text \<open>
  Claim C5. The claim asks for \<^verbatim>\<open>True\<close> whenever the parsed instant lies within the set
  bounds. The bounds that the collector builds are naive (\<^verbatim>\<open>datetime.now()\<close> minus the
  months, or a date given without offset), while the timestamps of GitLab and of
  \<^verbatim>\<open>git log --date=iso\<close> carry an offset and parse to aware instants; the comparison
  \<^verbatim>\<open>dt < start\<close> stands outside the \<^verbatim>\<open>try\<close> and raises \<^verbatim>\<open>TypeError\<close>. Here the code is
  run on the timestamp \<^verbatim>\<open>2025-06-01T00:00:00+00:00\<close>: under the start bound 2025-01-01
  \<^verbatim>\<open>within_range\<close> raises where the claim asks for \<^verbatim>\<open>True\<close>, the commit loop ends on that
  exception, and a run with \<^verbatim>\<open>--months-back 6\<close> on 2025-11-13 returns no event for the
  commit.
\<close>

theorem within_range_aware_timestamp_raises:
  "parse_date_any demo_env (JStr ''2025-06-01T00:00:00+00:00'') = Inr (Some d_2025_06_01_utc) \<and>
   instant d_2025_01_01 \<le> instant d_2025_06_01_utc \<and>
   within_range demo_env (JStr ''2025-06-01T00:00:00+00:00'') (Some d_2025_01_01) None = Inl TypeError \<and>
   for_rows (commit_row demo_env (Some d_2025_01_01) None) [commit_utc] [] = (Some TypeError, []) \<and>
   map_option fst
     (collect_data script_send demo_env (demo_args\<lparr>repo_path := [], months_back := Some 6\<rparr>)
        ([project_page, json_page (JArr [commit_utc]) None,
          json_page (JArr []) None, json_page (JArr []) None], [])) = Some (Inr [])"
proof -
  have parsed: "parse_date_any demo_env (JStr ''2025-06-01T00:00:00+00:00'') = Inr (Some d_2025_06_01_utc)"
    by (simp add: parse_date_any_def demo_env_def demo_fromisoformat_def replace_char_def)
  have inside: "instant d_2025_01_01 \<le> instant d_2025_06_01_utc"
    by (simp add: instant_def d_2025_01_01_def d_2025_06_01_utc_def)
  have raised: "within_range demo_env (JStr ''2025-06-01T00:00:00+00:00'') (Some d_2025_01_01) None =
      Inl TypeError"
    using parsed
    by (simp add: within_range_def py_lt_def comparable_def d_2025_01_01_def d_2025_06_01_utc_def)
  have loop: "for_rows (commit_row demo_env (Some d_2025_01_01) None) [commit_utc] [] =
      (Some TypeError, [])"
    by code_simp
  have run: "map_option fst
     (collect_data script_send demo_env (demo_args\<lparr>repo_path := [], months_back := Some 6\<rparr>)
        ([project_page, json_page (JArr [commit_utc]) None,
          json_page (JArr []) None, json_page (JArr []) None], [])) = Some (Inr [])"
    by code_simp
  from parsed inside raised loop run show ?thesis by (intro conjI)
qed

section \<open>The commit-log parser\<close>

lemma split_found:
  assumes "c \<in> set s"
  shows "s = takeWhile (\<lambda>x. x \<noteq> c) s @ c # tl (dropWhile (\<lambda>x. x \<noteq> c) s)"
proof -
  from assms have ne: "dropWhile (\<lambda>x. x \<noteq> c) s \<noteq> []" by simp
  then have "hd (dropWhile (\<lambda>x. x \<noteq> c) s) = c"
    using hd_dropWhile[of "\<lambda>x. x \<noteq> c" s] by simp
  with ne have "dropWhile (\<lambda>x. x \<noteq> c) s = c # tl (dropWhile (\<lambda>x. x \<noteq> c) s)"
    by (cases "dropWhile (\<lambda>x. x \<noteq> c) s") auto
  then show ?thesis
    using takeWhile_dropWhile_id[of "\<lambda>x. x \<noteq> c" s] by simp
qed

lemma count_pos_mem: "0 < count_list s c \<Longrightarrow> c \<in> set s"
  by (metis count_notin less_numeral_extra(3))

lemma count_rest:
  assumes "c \<in> set s"
  shows "count_list s c = Suc (count_list (tl (dropWhile (\<lambda>x. x \<noteq> c) s)) c)"
proof -
  have "count_list (takeWhile (\<lambda>x. x \<noteq> c) s) c = 0"
    by (rule count_notin) (auto dest: set_takeWhileD)
  then show ?thesis
    using arg_cong[OF split_found[OF assms], of "\<lambda>l. count_list l c"] by simp
qed

lemma split_step:
  assumes "n < count_list s c"
  shows "\<exists>a r. s = a @ c # r \<and> c \<notin> set a \<and> count_list r c = count_list s c - 1 \<and>
          split_max c (Suc k) s = a # split_max c k r"
proof -
  from assms have m: "c \<in> set s" by (auto intro: count_pos_mem)
  let ?a = "takeWhile (\<lambda>x. x \<noteq> c) s" and ?r = "tl (dropWhile (\<lambda>x. x \<noteq> c) s)"
  have "s = ?a @ c # ?r" by (rule split_found[OF m])
  moreover have "c \<notin> set ?a" by (auto dest: set_takeWhileD)
  moreover have "count_list ?r c = count_list s c - 1" using count_rest[OF m] by simp
  moreover have "split_max c (Suc k) s = ?a # split_max c k ?r" using m by simp
  ultimately show ?thesis by blast
qed


lemma git_log_rows_acc: "git_log_rows ls rows = rows @ git_log_rows ls []"
proof (induction ls arbitrary: rows)
  case Nil
  show ?case by simp
next
  case (Cons l ls)
  show ?case
  proof (cases "git_log_row l")
    case None
    then show ?thesis using Cons.IH[of rows] by simp
  next
    case (Some ev)
    then show ?thesis using Cons.IH[of "rows @ [ev]"] Cons.IH[of "[ev]"] by simp
  qed
qed

lemma git_log_rows_append:
  "git_log_rows (xs @ ys) rows = git_log_rows ys (git_log_rows xs rows)"
  by (induction xs arbitrary: rows) (auto split: option.splits)

lemma split_max_four:
  assumes "4 < count_list line c"
  shows "\<exists>sha an ae ad msg.
           line = sha @ c # an @ c # ae @ c # ad @ c # msg \<and>
           c \<notin> set sha \<and> c \<notin> set an \<and> c \<notin> set ae \<and> c \<notin> set ad \<and> c \<in> set msg \<and>
           split_max c 4 line = [sha, an, ae, ad, msg]"
proof -
  obtain a1 r1 where 1: "line = a1 @ c # r1" "c \<notin> set a1"
      "count_list r1 c = count_list line c - 1" "split_max c (Suc 3) line = a1 # split_max c 3 r1"
    using split_step[of 0 line c 3] assms by auto
  obtain a2 r2 where 2: "r1 = a2 @ c # r2" "c \<notin> set a2"
      "count_list r2 c = count_list r1 c - 1" "split_max c (Suc 2) r1 = a2 # split_max c 2 r2"
    using split_step[of 0 r1 c 2] assms 1(3) by auto
  obtain a3 r3 where 3: "r2 = a3 @ c # r3" "c \<notin> set a3"
      "count_list r3 c = count_list r2 c - 1" "split_max c (Suc 1) r2 = a3 # split_max c 1 r3"
    using split_step[of 0 r2 c 1] assms 1(3) 2(3) by auto
  obtain a4 r4 where 4: "r3 = a4 @ c # r4" "c \<notin> set a4"
      "count_list r4 c = count_list r3 c - 1" "split_max c (Suc 0) r3 = a4 # split_max c 0 r4"
    using split_step[of 0 r3 c 0] assms 1(3) 2(3) 3(3) by auto
  have "0 < count_list r4 c" using assms 1(3) 2(3) 3(3) 4(3) by simp
  then have m: "c \<in> set r4" by (rule count_pos_mem)
  have "split_max c 4 line = [a1, a2, a3, a4, r4]"
    using 1(4) 2(4) 3(4) 4(4) by (simp add: eval_nat_numeral)
  moreover have "line = a1 @ c # a2 @ c # a3 @ c # a4 @ c # r4"
    using 1(1) 2(1) 3(1) 4(1) by simp
  ultimately show ?thesis using 1(2) 2(2) 3(2) 4(2) m by blast
qed

text \<open>
  Claim C10. A line of the commit log with more than four \<^verbatim>\<open>|\<close> is cut at its first
  four \<^verbatim>\<open>|\<close> only: the first four fields contain none, the fifth is the whole remainder
  with every further \<^verbatim>\<open>|\<close> in it and becomes the message of the event, the five parts
  joined by \<^verbatim>\<open>|\<close> are the line again, and the event stands in the result of
  \<^verbatim>\<open>parse_git_log\<close> between the events of the lines before it and those of the lines
  after it.
\<close>

theorem parse_git_log_keeps_remainder:
  assumes "4 < count_list line CHR ''|''"
    and "run_git E repo
           [''log'', ''--all'', ''--pretty=format:%H|%an|%ae|%ad|%s'', ''--date=iso''] = Inr out"
    and "splitlines out = before @ line # after"
  shows "\<exists>sha an ae ad msg ev.
           line = sha @ ''|'' @ an @ ''|'' @ ae @ ''|'' @ ad @ ''|'' @ msg \<and>
           CHR ''|'' \<notin> set sha \<and> CHR ''|'' \<notin> set an \<and> CHR ''|'' \<notin> set ae \<and>
           CHR ''|'' \<notin> set ad \<and> CHR ''|'' \<in> set msg \<and>
           ev = [(''source'', JStr ''local_commit''), (''action_type'', JStr ''commit''),
                 (''user_name'', JStr an), (''user_email'', JStr ae), (''timestamp'', JStr ad),
                 (''ref'', JStr []), (''commit_sha'', JStr sha), (''message'', JStr msg),
                 (''url'', JStr [])] \<and>
           git_log_row line = Some ev \<and>
           parse_git_log E repo =
             Inr (git_log_rows before [] @ ev # git_log_rows after [])"
proof -
  obtain sha an ae ad msg where d:
      "line = sha @ CHR ''|'' # an @ CHR ''|'' # ae @ CHR ''|'' # ad @ CHR ''|'' # msg"
      "CHR ''|'' \<notin> set sha" "CHR ''|'' \<notin> set an" "CHR ''|'' \<notin> set ae" "CHR ''|'' \<notin> set ad"
      "CHR ''|'' \<in> set msg" "split_max CHR ''|'' 4 line = [sha, an, ae, ad, msg]"
    using split_max_four[OF assms(1)] by blast
  let ?ev = "[(''source'', JStr ''local_commit''), (''action_type'', JStr ''commit''),
              (''user_name'', JStr an), (''user_email'', JStr ae), (''timestamp'', JStr ad),
              (''ref'', JStr []), (''commit_sha'', JStr sha), (''message'', JStr msg),
              (''url'', JStr [])]"
  have row: "git_log_row line = Some ?ev"
    using d(7) by (simp add: git_log_row_def)
  have "git_log_rows (before @ line # after) [] = git_log_rows after (git_log_rows before [] @ [?ev])"
    using row by (simp add: git_log_rows_append)
  also have "\<dots> = (git_log_rows before [] @ [?ev]) @ git_log_rows after []"
    by (rule git_log_rows_acc)
  finally have "parse_git_log E repo = Inr (git_log_rows before [] @ ?ev # git_log_rows after [])"
    using assms(2,3) by (simp add: parse_git_log_def)
  moreover have "line = sha @ ''|'' @ an @ ''|'' @ ae @ ''|'' @ ad @ ''|'' @ msg"
    using d(1) by simp
  ultimately show ?thesis using d(2-6) row by blast
qed

text \<open>
  The first line of the sample log has six separators; its message is \<^verbatim>\<open>fix a|b|c\<close>.
\<close>

theorem parse_git_log_keeps_remainder_witness:
  "4 < count_list ''1a2b|Ann|ann@example.org|2025-06-01|fix a|b|c'' CHR ''|'' \<and>
   run_git demo_env ''/repo''
     [''log'', ''--all'', ''--pretty=format:%H|%an|%ae|%ad|%s'', ''--date=iso''] = Inr demo_git_log \<and>
   splitlines demo_git_log =
     [] @ ''1a2b|Ann|ann@example.org|2025-06-01|fix a|b|c'' #
       [''no separators here'', ''3c4d|Bob|bob@example.org|2025-01-01|init''] \<and>
   git_log_row ''1a2b|Ann|ann@example.org|2025-06-01|fix a|b|c'' =
     Some [(''source'', JStr ''local_commit''), (''action_type'', JStr ''commit''),
           (''user_name'', JStr ''Ann''), (''user_email'', JStr ''ann@example.org''),
           (''timestamp'', JStr ''2025-06-01''), (''ref'', JStr []),
           (''commit_sha'', JStr ''1a2b''), (''message'', JStr ''fix a|b|c''), (''url'', JStr [])] \<and>
   (\<exists>ev. git_log_row ''1a2b|Ann|ann@example.org|2025-06-01|fix a|b|c'' = Some ev \<and>
      parse_git_log demo_env ''/repo'' =
        Inr (git_log_rows [] [] @
             ev # git_log_rows [''no separators here'', ''3c4d|Bob|bob@example.org|2025-01-01|init''] []))"
proof -
  have c: "4 < count_list ''1a2b|Ann|ann@example.org|2025-06-01|fix a|b|c'' CHR ''|''"
    by simp
  have g: "run_git demo_env ''/repo''
     [''log'', ''--all'', ''--pretty=format:%H|%an|%ae|%ad|%s'', ''--date=iso''] = Inr demo_git_log"
    by (simp add: run_git_def demo_env_def demo_check_output_def)
  have l: "splitlines demo_git_log =
     [] @ ''1a2b|Ann|ann@example.org|2025-06-01|fix a|b|c'' #
       [''no separators here'', ''3c4d|Bob|bob@example.org|2025-01-01|init'']"
    by (simp add: splitlines_def demo_git_log_def is_linebreak_def)
  have r: "git_log_row ''1a2b|Ann|ann@example.org|2025-06-01|fix a|b|c'' =
     Some [(''source'', JStr ''local_commit''), (''action_type'', JStr ''commit''),
           (''user_name'', JStr ''Ann''), (''user_email'', JStr ''ann@example.org''),
           (''timestamp'', JStr ''2025-06-01''), (''ref'', JStr []),
           (''commit_sha'', JStr ''1a2b''), (''message'', JStr ''fix a|b|c''), (''url'', JStr [])]"
    by (simp add: git_log_row_def eval_nat_numeral)
  from parse_git_log_keeps_remainder[OF c g l] c g l r show ?thesis by blast
qed

section \<open>Pagination\<close>

lemma get_loop_object:
  assumes "send s \<lparr>req_url = u, req_params = ps, req_token = token cl, req_verify = verify cl\<rparr> = (Inr r, s')"
    and "ok r" and "json_body r = Inr (JObj kvs)"
  shows "get_loop send cl u ps acc s = Some (Inr (JObj kvs), s')"
  using assms by (subst get_loop.simps) simp

lemma get_loop_last:
  assumes "send s \<lparr>req_url = u, req_params = ps, req_token = token cl, req_verify = verify cl\<rparr> = (Inr r, s')"
    and "ok r" and "json_body r = Inr (JArr xs)" and "next_page_of r = []"
  shows "get_loop send cl u ps acc s = Some (Inr (JArr (acc @ xs)), s')"
  using assms by (subst get_loop.simps) (simp add: list_extend_def)

lemma get_loop_more:
  assumes "send s \<lparr>req_url = u, req_params = ps, req_token = token cl, req_verify = verify cl\<rparr> = (Inr r, s1)"
    and "ok r" and "json_body r = Inr (JArr xs)" and "next_page_of r \<noteq> []"
  shows "get_loop send cl u ps acc s =
         get_loop send cl u (dict_set ps ''page'' (JStr (next_page_of r))) (acc @ xs) s1"
  using assms by (subst get_loop.simps) (simp add: list_extend_def)

lemma get_loop_pages:
  assumes "\<forall>p\<in>set pages. ok p \<and> json_body p = Inr (JArr (body_items p)) \<and> next_page_of p \<noteq> []"
    and "ok r"
    and "serve send s (page_requests \<lparr>req_url = u, req_params = ps, req_token = token cl, req_verify = verify cl\<rparr> (pages @ [r]))
           = (map Inr (pages @ [r]), s')"
  shows "get_loop send cl u ps acc s =
           (case json_body r of
              Inr (JObj kvs) \<Rightarrow> Some (Inr (JObj kvs), s')
            | _ \<Rightarrow> get_loop send cl u ps acc s) \<and>
         (json_body r = Inr (JArr xs) \<and> next_page_of r = [] \<longrightarrow>
            get_loop send cl u ps acc s =
              Some (Inr (JArr (acc @ concat (map body_items pages) @ xs)), s'))"
  using assms
proof (induction pages arbitrary: ps acc s)
  case Nil
  let ?q = "\<lparr>req_url = u, req_params = ps, req_token = token cl, req_verify = verify cl\<rparr>"
  from Nil(3) have snd: "send s ?q = (Inr r, s')"
    by (auto split: prod.splits)
  show ?case
    using get_loop_object[where send=send and s=s and cl=cl, OF snd Nil(2)]
      get_loop_last[where send=send and s=s and cl=cl, OF snd Nil(2)]
    by (auto split: sum.splits json.splits)
next
  case (Cons p pages)
  let ?q = "\<lparr>req_url = u, req_params = ps, req_token = token cl, req_verify = verify cl\<rparr>"
  let ?ps' = "dict_set ps ''page'' (JStr (next_page_of p))"
  from Cons.prems(3) obtain s1 where snd: "send s ?q = (Inr p, s1)"
    and rest: "serve send s1 (page_requests \<lparr>req_url = u, req_params = ?ps', req_token = token cl, req_verify = verify cl\<rparr> (pages @ [r]))
           = (map Inr (pages @ [r]), s')"
    by (auto split: prod.splits)
  from Cons.prems(1) have p: "ok p" "json_body p = Inr (JArr (body_items p))" "next_page_of p \<noteq> []"
    and ps: "\<forall>p\<in>set pages. ok p \<and> json_body p = Inr (JArr (body_items p)) \<and> next_page_of p \<noteq> []"
    by auto
  have step: "get_loop send cl u ps acc s = get_loop send cl u ?ps' (acc @ body_items p) s1"
    by (rule get_loop_more[where send=send and s=s and cl=cl, OF snd p])
  show ?case
    using Cons.IH[OF ps Cons.prems(2) rest, of "acc @ body_items p"] step
    by (auto split: sum.splits json.splits)
qed

text \<open>
  Claim C7. Let the remote side answer the requests of one call of \<^verbatim>\<open>_get\<close> with a
  sequence of successful list-valued pages whose next-page header is non-empty, followed
  by one more successful response \<open>r\<close>. The loop sends one request per response (the
  first with \<^verbatim>\<open>per_page=100\<close>, each later one with \<^verbatim>\<open>page\<close> set to the header of the
  page before it) and none after \<open>r\<close>: the remote side is left in the state \<open>s'\<close> it has
  after exactly these requests. If \<open>r\<close> is a list-valued page with an empty or absent
  next-page header, the call returns the concatenation of all page bodies in page order; if
  the body of \<open>r\<close> is a single JSON object, the call returns that object as it is.
\<close>

theorem GitLabClient_get_follows_pages:
  assumes "\<forall>p\<in>set pages. ok p \<and> json_body p = Inr (JArr (body_items p)) \<and> next_page_of p \<noteq> []"
    and "ok r"
    and "serve send s (page_requests (first_request cl path params) (pages @ [r]))
           = (map Inr (pages @ [r]), s')"
  shows "length (page_requests (first_request cl path params) (pages @ [r])) = length (pages @ [r]) \<and>
         (json_body r = Inr (JArr xs) \<and> next_page_of r = [] \<longrightarrow>
            GitLabClient_get send cl path params s =
              Some (Inr (JArr (concat (map body_items pages) @ xs)), s')) \<and>
         (json_body r = Inr (JObj kvs) \<longrightarrow>
            GitLabClient_get send cl path params s = Some (Inr (JObj kvs), s'))"
proof -
  have len: "length (page_requests q ps) = length ps" for q ps
    by (induction ps arbitrary: q) auto
  let ?ps = "setdefault (case params of None \<Rightarrow> [] | Some p \<Rightarrow> p) ''per_page'' (JNum 100)"
  have served: "serve send s (page_requests \<lparr>req_url = base_url cl @ path, req_params = ?ps,
                   req_token = token cl, req_verify = verify cl\<rparr> (pages @ [r]))
                 = (map Inr (pages @ [r]), s')"
    using assms(3) by (simp add: first_request_def)
  note main = get_loop_pages[where send=send and s=s and cl=cl and acc="[]" and xs=xs,
      OF assms(1) assms(2) served]
  show ?thesis
    using main len by (auto simp: GitLabClient_get_def split: sum.splits json.splits)
qed

text \<open>
  Two commit pages, the first one pointing to page 2: two requests are logged, the third
  scripted response is left unread, and the bodies come back in order. A project lookup
  answered by a single object: one request, the object returned.
\<close>

theorem GitLabClient_get_follows_pages_witness:
  "ok commits_page_1 \<and> json_body commits_page_1 = Inr (JArr (body_items commits_page_1)) \<and>
   next_page_of commits_page_1 \<noteq> [] \<and>
   ok commits_page_2 \<and> ok project_page \<and>
   GitLabClient_get script_send demo_client ''/api/v4/projects/42/repository/commits'' None
       ([commits_page_1, commits_page_2, project_page], []) =
     Some (Inr (JArr [commit_a, commit_b]),
           ([project_page],
            [\<lparr>req_url = ''https://gitlab.example.com/api/v4/projects/42/repository/commits'',
              req_params = [(''per_page'', JNum 100)], req_token = ''t0ken'', req_verify = True\<rparr>,
             \<lparr>req_url = ''https://gitlab.example.com/api/v4/projects/42/repository/commits'',
              req_params = [(''per_page'', JNum 100), (''page'', JStr ''2'')], req_token = ''t0ken'',
              req_verify = True\<rparr>])) \<and>
   GitLabClient_get script_send demo_client ''/api/v4/projects/group%2Fapp'' None
       ([project_page, commits_page_1], []) =
     Some (Inr (JObj [(''id'', JNum 42)]),
           ([commits_page_1],
            [\<lparr>req_url = ''https://gitlab.example.com/api/v4/projects/group%2Fapp'',
              req_params = [(''per_page'', JNum 100)], req_token = ''t0ken'', req_verify = True\<rparr>]))"
proof -
  have pages: "\<forall>p\<in>set [commits_page_1]. ok p \<and> json_body p = Inr (JArr (body_items p)) \<and> next_page_of p \<noteq> []"
    by (simp add: commits_page_1_def json_page_def body_items_def next_page_of_def)
  have none: "\<forall>p\<in>set ([]::response list). ok p \<and> json_body p = Inr (JArr (body_items p)) \<and> next_page_of p \<noteq> []"
    by simp
  have ok2: "ok commits_page_2" by (simp add: commits_page_2_def json_page_def)
  have ok0: "ok project_page" by (simp add: project_page_def json_page_def)
  let ?q1 = "\<lparr>req_url = ''https://gitlab.example.com/api/v4/projects/42/repository/commits'',
              req_params = [(''per_page'', JNum 100)], req_token = ''t0ken'', req_verify = True\<rparr>"
  let ?q2 = "\<lparr>req_url = ''https://gitlab.example.com/api/v4/projects/42/repository/commits'',
              req_params = [(''per_page'', JNum 100), (''page'', JStr ''2'')], req_token = ''t0ken'',
              req_verify = True\<rparr>"
  let ?q0 = "\<lparr>req_url = ''https://gitlab.example.com/api/v4/projects/group%2Fapp'',
              req_params = [(''per_page'', JNum 100)], req_token = ''t0ken'', req_verify = True\<rparr>"
  have served: "serve script_send ([commits_page_1, commits_page_2, project_page], [])
       (page_requests (first_request demo_client ''/api/v4/projects/42/repository/commits'' None)
          ([commits_page_1] @ [commits_page_2]))
     = (map Inr ([commits_page_1] @ [commits_page_2]), ([project_page], [?q1, ?q2]))"
    by (simp add: first_request_def demo_client_def GitLabClient_def rstrip_def setdefault_def
        script_send_def commits_page_1_def json_page_def next_page_of_def)
  have served0: "serve script_send ([project_page, commits_page_1], [])
       (page_requests (first_request demo_client ''/api/v4/projects/group%2Fapp'' None) ([] @ [project_page]))
     = (map Inr ([] @ [project_page]), ([commits_page_1], [?q0]))"
    by (simp add: first_request_def demo_client_def GitLabClient_def rstrip_def setdefault_def
        script_send_def)
  have b2: "json_body commits_page_2 = Inr (JArr [commit_b]) \<and> next_page_of commits_page_2 = []"
    by (simp add: commits_page_2_def json_page_def next_page_of_def)
  have b0: "json_body project_page = Inr (JObj [(''id'', JNum 42)])"
    by (simp add: project_page_def json_page_def)
  have items: "concat (map body_items [commits_page_1]) = [commit_a]"
    by (simp add: commits_page_1_def json_page_def body_items_def)
  show ?thesis
    using GitLabClient_get_follows_pages[OF pages ok2 served, of "[commit_b]"]
      GitLabClient_get_follows_pages[OF none ok0 served0, of _ "[(''id'', JNum 42)]"]
      pages ok2 ok0 b2 b0 items
    by simp
qed

section \<open>The collector keeps its sub-steps apart\<close>

lemma for_rows_kept: "for_rows body xs rows = (fst (for_rows body xs rows), rows @ kept body xs)"
proof (induction xs arbitrary: rows)
  case Nil
  show ?case by (simp add: kept_def)
next
  case (Cons x xs)
  show ?case
  proof (cases "body x")
    case (Inl e)
    then show ?thesis by (simp add: kept_def)
  next
    case (Inr r)
    show ?thesis
    proof (cases r)
      case None
      with Inr Cons.IH[of rows] show ?thesis
        by (simp add: kept_def)
    next
      case (Some ev)
      with Inr Cons.IH[of "rows @ [ev]"] show ?thesis
        by (simp add: kept_def)
    qed
  qed
qed

lemma snd_for_rows: "snd (for_rows body xs rows) = rows @ kept body xs"
  using for_rows_kept[of body xs rows] by (metis snd_conv)

lemma for_rows_raises:
  "fst (for_rows body xs rows) =
     (case dropWhile (\<lambda>x. \<not> isl (body x)) xs of [] \<Rightarrow> None | x # ys \<Rightarrow> Some (projl (body x)))"
  by (induction xs arbitrary: rows) (auto split: sum.splits option.splits)

lemma remote_step_contribution:
  assumes "listing s = Some (res, s1)"
  shows "remote_step listing body rows s = Some (rows @ remote_contribution body res, s1)"
  using assms
  by (simp add: remote_step_def remote_contribution_def snd_for_rows split: sum.splits)

lemma local_step_contribution:
  "local_step parsed body rows = rows @ local_contribution body parsed"
  by (simp add: local_step_def local_contribution_def snd_for_rows split: sum.splits)

lemma listings_return:
  assumes "\<forall>cl path params s. GitLabClient_get send cl path params s \<noteq> None"
  shows "\<exists>res s1. get_project_by_path send E cl p s = Some (res, s1)"
    and "\<exists>res s1. list_commits send E cl i s = Some (res, s1)"
    and "\<exists>res s1. list_branches send E cl i s = Some (res, s1)"
    and "\<exists>res s1. list_merge_requests send E cl i s = Some (res, s1)"
  using assms
  by (auto simp: get_project_by_path_def list_commits_def list_branches_def list_merge_requests_def)

lemma collect_data_local_only:
  assumes "filter_window E a = Inr (st, en)" and "\<not> remote_enabled a"
  shows "collect_data send E a s = Some (Inr (local_part E a st en), s)"
  using assms by (simp add: collect_data_def local_part_def local_step_contribution Let_def)

lemma collect_data_remote:
  assumes "filter_window E a = Inr (st, en)" and "remote_enabled a"
    and "get_project_by_path send E (make_client a) (project a) s = Some (res0, s0)"
    and "list_commits send E (make_client a) (resolve_project a res0) s0 = Some (res1, s1)"
    and "list_branches send E (make_client a) (resolve_project a res0) s1 = Some (res2, s2)"
    and "list_merge_requests send E (make_client a) (resolve_project a res0) s2 = Some (res3, s3)"
  shows "collect_data send E a s =
           Some (Inr (remote_contribution (commit_row E st en) res1 @
                      remote_contribution (branch_row E st en) res2 @
                      remote_contribution (merge_request_row E st en) res3 @
                      local_part E a st en), s3)"
proof -
  have 1: "remote_step (list_commits send E (make_client a) (resolve_project a res0))
             (commit_row E st en) [] s0 = Some ([] @ remote_contribution (commit_row E st en) res1, s1)"
    by (rule remote_step_contribution[where listing="list_commits send E (make_client a) (resolve_project a res0)" and s=s0, OF assms(4)])
  have 2: "remote_step (list_branches send E (make_client a) (resolve_project a res0))
             (branch_row E st en) rows s1 = Some (rows @ remote_contribution (branch_row E st en) res2, s2)" for rows
    by (rule remote_step_contribution[where listing="list_branches send E (make_client a) (resolve_project a res0)" and s=s1, OF assms(5)])
  have 3: "remote_step (list_merge_requests send E (make_client a) (resolve_project a res0))
             (merge_request_row E st en) rows s2 = Some (rows @ remote_contribution (merge_request_row E st en) res3, s3)" for rows
    by (rule remote_step_contribution[where listing="list_merge_requests send E (make_client a) (resolve_project a res0)" and s=s2, OF assms(6)])
  show ?thesis
    using assms(1,2,3) 1 2 3
    by (simp add: collect_data_def local_part_def local_step_contribution Let_def)
qed

text \<open>
  The scripted remote side answers every call of \<^verbatim>\<open>_get\<close>: each request uses up one
  response of the script.
\<close>

lemma script_send_Nil: "script_send ([], log) q = (Inl ConnectionError, ([], log @ [q]))"
  by (simp add: script_send_def)

lemma script_send_Cons: "script_send (r # rs, log) q = (Inr r, (rs, log @ [q]))"
  by (simp add: script_send_def)

lemma script_loop_returns:
  "get_loop script_send cl u ps acc (rs, log) \<noteq> None"
proof (induction rs arbitrary: ps acc log)
  case Nil
  show ?case by (subst get_loop.simps) (simp add: script_send_Nil)
next
  case (Cons r rs)
  show ?case
    using Cons.IH
    by (subst get_loop.simps)
       (auto simp: script_send_Cons Let_def split: sum.splits json.splits)
qed

lemma script_get_returns: "GitLabClient_get script_send cl path params s \<noteq> None"
  using script_loop_returns[of cl _ _ "[]" "fst s" "snd s"]
  by (simp add: GitLabClient_get_def)

text \<open>
  Claim C1 as stated fails. No filter, no local repository; the commit listing returns
  three commits, the second with \<^verbatim>\<open>"message": null\<close>. The loop appends the first commit,
  raises \<^verbatim>\<open>AttributeError\<close> on the second (\<^verbatim>\<open>None\<close> has no \<^verbatim>\<open>replace\<close>), the exception
  is caught, and the first event stays in the returned list: the failing sub-step
  contributes one event, not zero.
\<close>

theorem collect_data_failing_step_counterexample:
  "for_rows (commit_row demo_env None None) [commit_a, commit_null_message, commit_b] [] =
     (Some AttributeError,
      [[(''source'', JStr ''gitlab_commit''), (''action_type'', JStr ''commit''),
        (''user_name'', JStr ''Ann''), (''user_email'', JStr ''ann@example.org''),
        (''timestamp'', JStr ''2025-06-01''), (''ref'', JStr []),
        (''commit_sha'', JStr ''1a2b''), (''message'', JStr ''fix a|b|c''),
        (''url'', JStr ''https://gitlab.example.com/c/1a2b'')]]) \<and>
   map_option fst
     (collect_data script_send demo_env (demo_args\<lparr>repo_path := []\<rparr>)
        ([project_page, json_page (JArr [commit_a, commit_null_message, commit_b]) None,
          json_page (JArr []) None, json_page (JArr []) None], [])) =
     Some (Inr
      [[(''source'', JStr ''gitlab_commit''), (''action_type'', JStr ''commit''),
        (''user_name'', JStr ''Ann''), (''user_email'', JStr ''ann@example.org''),
        (''timestamp'', JStr ''2025-06-01''), (''ref'', JStr []),
        (''commit_sha'', JStr ''1a2b''), (''message'', JStr ''fix a|b|c''),
        (''url'', JStr ''https://gitlab.example.com/c/1a2b'')]])"
  by code_simp

text \<open>
  Claim C1, amended. Take a run in which the filter window is computed and every paginated
  listing returns. Then the collector returns a list (no exception of a sub-step escapes
  it), and this list is the concatenation, in the order commits, branches, merge requests,
  commit log, reflog, of the contributions of the sub-steps, each computed from the outcome
  of its own listing alone: nothing when the listing raised, and otherwise the events of
  the items before the first item on which the loop body raises (of all items when it does
  not raise). Each remote listing is called on the state the remote side was left in by the
  one before it, whether that one failed or not.
\<close>

theorem collect_data_isolates_sub_steps:
  assumes "\<forall>cl path params s. GitLabClient_get send cl path params s \<noteq> None"
    and "filter_window E a = Inr (st, en)"
  shows "(remote_enabled a \<longrightarrow>
            (\<exists>res0 s0 res1 s1 res2 s2 res3 s3.
               get_project_by_path send E (make_client a) (project a) s = Some (res0, s0) \<and>
               list_commits send E (make_client a) (resolve_project a res0) s0 = Some (res1, s1) \<and>
               list_branches send E (make_client a) (resolve_project a res0) s1 = Some (res2, s2) \<and>
               list_merge_requests send E (make_client a) (resolve_project a res0) s2 = Some (res3, s3) \<and>
               collect_data send E a s =
                 Some (Inr (remote_contribution (commit_row E st en) res1 @
                            remote_contribution (branch_row E st en) res2 @
                            remote_contribution (merge_request_row E st en) res3 @
                            local_part E a st en), s3))) \<and>
         (\<not> remote_enabled a \<longrightarrow>
            collect_data send E a s = Some (Inr (local_part E a st en), s)) \<and>
         remote_contribution body (Inl e) = [] \<and>
         local_contribution body' (Inl e) = []"
proof -
  obtain res0 s0 where 0: "get_project_by_path send E (make_client a) (project a) s = Some (res0, s0)"
    using listings_return(1)[OF assms(1)] by blast
  obtain res1 s1 where 1: "list_commits send E (make_client a) (resolve_project a res0) s0 = Some (res1, s1)"
    using listings_return(2)[OF assms(1)] by blast
  obtain res2 s2 where 2: "list_branches send E (make_client a) (resolve_project a res0) s1 = Some (res2, s2)"
    using listings_return(3)[OF assms(1)] by blast
  obtain res3 s3 where 3: "list_merge_requests send E (make_client a) (resolve_project a res0) s2 = Some (res3, s3)"
    using listings_return(4)[OF assms(1)] by blast
  have remote: "remote_enabled a \<longrightarrow>
            (\<exists>res0 s0 res1 s1 res2 s2 res3 s3.
               get_project_by_path send E (make_client a) (project a) s = Some (res0, s0) \<and>
               list_commits send E (make_client a) (resolve_project a res0) s0 = Some (res1, s1) \<and>
               list_branches send E (make_client a) (resolve_project a res0) s1 = Some (res2, s2) \<and>
               list_merge_requests send E (make_client a) (resolve_project a res0) s2 = Some (res3, s3) \<and>
               collect_data send E a s =
                 Some (Inr (remote_contribution (commit_row E st en) res1 @
                            remote_contribution (branch_row E st en) res2 @
                            remote_contribution (merge_request_row E st en) res3 @
                            local_part E a st en), s3))"
    using collect_data_remote[OF assms(2) _ 0 1 2 3] 0 1 2 3 by blast
  have local: "\<not> remote_enabled a \<longrightarrow>
            collect_data send E a s = Some (Inr (local_part E a st en), s)"
    by (simp add: collect_data_local_only[OF assms(2)])
  show ?thesis
    using remote local by (simp add: remote_contribution_def local_contribution_def)
qed


text \<open>
  A run on the sample repository and a scripted remote side: the commit loop raises on its
  second item, the branch listing gets HTTP 500, the merge requests and both local
  sub-steps go through. The list holds one commit, no branch, one merge request, two log
  entries and two reflog entries.
\<close>

theorem collect_data_isolates_sub_steps_witness:
  "(\<forall>cl path params s. GitLabClient_get script_send cl path params s \<noteq> None) \<and>
   filter_window demo_env demo_args = Inr (None, None) \<and>
   remote_enabled demo_args \<and>
   (\<exists>res1 res2 res3 s3.
      collect_data script_send demo_env demo_args
        ([project_page, json_page (JArr [commit_a, commit_null_message, commit_b]) None,
          failure_page, json_page (JArr [merge_request_draft]) None], []) =
      Some (Inr (remote_contribution (commit_row demo_env None None) res1 @
                 remote_contribution (branch_row demo_env None None) res2 @
                 remote_contribution (merge_request_row demo_env None None) res3 @
                 local_part demo_env demo_args None None), s3)) \<and>
   map_option (\<lambda>r. map_sum id (map (\<lambda>ev. (map_of ev ''source'', map_of ev ''commit_sha''))) (fst r))
     (collect_data script_send demo_env demo_args
        ([project_page, json_page (JArr [commit_a, commit_null_message, commit_b]) None,
          failure_page, json_page (JArr [merge_request_draft]) None], [])) =
     Some (Inr [(Some (JStr ''gitlab_commit''), Some (JStr ''1a2b'')),
                (Some (JStr ''gitlab_merge_request''), Some JNull),
                (Some (JStr ''local_commit''), Some (JStr ''1a2b'')),
                (Some (JStr ''local_commit''), Some (JStr ''3c4d'')),
                (Some (JStr ''local_reflog''), Some (JStr ''1a2b'')),
                (Some (JStr ''local_reflog''), Some (JStr ''3c4d''))])"
proof -
  have h1: "\<forall>cl path params s. GitLabClient_get script_send cl path params s \<noteq> None"
    by (simp add: script_get_returns)
  have h2: "filter_window demo_env demo_args = Inr (None, None)"
    by (simp add: filter_window_def demo_args_def and_then_def)
  have h3: "remote_enabled demo_args"
    by (simp add: remote_enabled_def demo_args_def)
  have run: "map_option (\<lambda>r. map_sum id (map (\<lambda>ev. (map_of ev ''source'', map_of ev ''commit_sha''))) (fst r))
     (collect_data script_send demo_env demo_args
        ([project_page, json_page (JArr [commit_a, commit_null_message, commit_b]) None,
          failure_page, json_page (JArr [merge_request_draft]) None], [])) =
     Some (Inr [(Some (JStr ''gitlab_commit''), Some (JStr ''1a2b'')),
                (Some (JStr ''gitlab_merge_request''), Some JNull),
                (Some (JStr ''local_commit''), Some (JStr ''1a2b'')),
                (Some (JStr ''local_commit''), Some (JStr ''3c4d'')),
                (Some (JStr ''local_reflog''), Some (JStr ''1a2b'')),
                (Some (JStr ''local_reflog''), Some (JStr ''3c4d''))])"
    by code_simp
  from collect_data_isolates_sub_steps[OF h1 h2,
      of "([project_page, json_page (JArr [commit_a, commit_null_message, commit_b]) None,
          failure_page, json_page (JArr [merge_request_draft]) None], [])"] h3
  have "\<exists>res1 res2 res3 s3.
      collect_data script_send demo_env demo_args
        ([project_page, json_page (JArr [commit_a, commit_null_message, commit_b]) None,
          failure_page, json_page (JArr [merge_request_draft]) None], []) =
      Some (Inr (remote_contribution (commit_row demo_env None None) res1 @
                 remote_contribution (branch_row demo_env None None) res2 @
                 remote_contribution (merge_request_row demo_env None None) res3 @
                 local_part demo_env demo_args None None), s3)"
    by blast
  with h1 h2 h3 run show ?thesis by blast
qed

section \<open>The reflog under a filter\<close>

lemma reflog_rows_map: "reflog_rows ls rows = rows @ map reflog_row ls"
  by (induction ls arbitrary: rows) auto

lemma within_range_empty_bound:
  assumes "st \<noteq> None \<or> en \<noteq> None"
  shows "within_range E (JStr []) st en = Inr False"
  using assms by (cases st; cases en) (simp_all add: within_range_def)

lemma reflog_row_timestamp: "map_of (reflog_row l) ''timestamp'' = Some (JStr [])"
  by (simp add: reflog_row_def Let_def)

lemma local_row_reflog:
  assumes "st \<noteq> None \<or> en \<noteq> None"
  shows "local_row E st en (reflog_row l) = Inr None"
  by (simp add: local_row_def reflog_row_timestamp within_range_empty_bound[OF assms] and_then_def)

lemma and_then_InrE:
  assumes "and_then m f = Inr y"
  obtains x where "m = Inr x" and "f x = Inr y"
  using assms by (cases m) (auto simp: and_then_def)

lemma kept_nothing:
  assumes "\<forall>x\<in>set xs. body x = Inr None"
  shows "kept body xs = []"
  using assms by (induction xs) (auto simp: kept_def)

lemma reflog_contribution_empty:
  assumes "st \<noteq> None \<or> en \<noteq> None"
  shows "local_contribution (local_row E st en) (parse_reflog E repo) = []"
proof (cases "run_git E repo [''reflog'', ''--date=iso'']")
  case (Inl e)
  then show ?thesis by (simp add: local_contribution_def parse_reflog_def)
next
  case (Inr out)
  have "kept (local_row E st en) (map reflog_row (splitlines out)) = []"
    by (rule kept_nothing) (simp add: local_row_reflog[OF assms])
  with Inr show ?thesis
    by (simp add: local_contribution_def parse_reflog_def reflog_rows_map)
qed

lemma map_filter_mem:
  "y \<in> set (List.map_filter f xs) \<Longrightarrow> \<exists>x\<in>set xs. f x = Some y"
  by (induction xs) (auto split: option.splits)

lemma kept_from_body:
  assumes "ev \<in> set (kept body xs)"
  shows "\<exists>x\<in>set xs. body x = Inr (Some ev)"
proof -
  from assms obtain x where x: "x \<in> set (takeWhile (\<lambda>x. \<not> isl (body x)) xs)"
      and b: "(case body x of Inr (Some ev) \<Rightarrow> Some ev | _ \<Rightarrow> None) = Some ev"
    by (auto simp: kept_def dest: map_filter_mem)
  from b have "body x = Inr (Some ev)"
    by (auto split: sum.splits option.splits)
  moreover from x have "x \<in> set xs" by (rule set_takeWhileD[THEN conjunct1])
  ultimately show ?thesis by blast
qed

lemma commit_row_source:
  assumes "commit_row E st en c = Inr (Some ev)"
  shows "map_of ev ''source'' = Some (JStr ''gitlab_commit'')"
  using assms
  unfolding commit_row_def Let_def
  by (elim and_then_InrE) (auto split: if_splits elim!: and_then_InrE)


lemma branch_row_source:
  assumes "branch_row E st en c = Inr (Some ev)"
  shows "map_of ev ''source'' = Some (JStr ''gitlab_branch'')"
  using assms
  unfolding branch_row_def Let_def
  by (elim and_then_InrE) (auto split: if_splits elim!: and_then_InrE)

lemma merge_request_row_source:
  assumes "merge_request_row E st en c = Inr (Some ev)"
  shows "map_of ev ''source'' = Some (JStr ''gitlab_merge_request'')"
  using assms
  unfolding merge_request_row_def Let_def
  by (elim and_then_InrE) (auto split: if_splits elim!: and_then_InrE)

lemma remote_contribution_source:
  assumes "\<And>x ev. body x = Inr (Some ev) \<Longrightarrow> map_of ev ''source'' = Some (JStr src)"
    and "ev \<in> set (remote_contribution body res)"
  shows "map_of ev ''source'' = Some (JStr src)"
  using assms(2) kept_from_body[of ev body] assms(1)
  by (auto simp: remote_contribution_def split: sum.splits)

lemma git_log_row_source:
  assumes "git_log_row l = Some ev"
  shows "map_of ev ''source'' = Some (JStr ''local_commit'')"
  using assms by (auto simp: git_log_row_def split: list.splits)

lemma git_log_rows_source:
  assumes "ev \<in> set (git_log_rows ls [])"
  shows "map_of ev ''source'' = Some (JStr ''local_commit'')"
  using assms
proof (induction ls)
  case Nil
  then show ?case by simp
next
  case (Cons l ls)
  show ?case
  proof (cases "git_log_row l")
    case None
    with Cons show ?thesis by simp
  next
    case (Some e)
    with Cons.prems have "ev \<in> set ([e] @ git_log_rows ls [])"
      using git_log_rows_acc[of ls "[e]"] by simp
    with Cons.IH Some show ?thesis by (auto dest: git_log_row_source)
  qed
qed

lemma local_row_keeps: "local_row E st en entry = Inr (Some ev) \<Longrightarrow> ev = entry"
  unfolding local_row_def Let_def
  by (elim and_then_InrE) (auto split: if_splits)

lemma git_log_contribution_source:
  assumes "ev \<in> set (local_contribution (local_row E st en) (parse_git_log E repo))"
  shows "map_of ev ''source'' = Some (JStr ''local_commit'')"
proof -
  from assms obtain out where out: "parse_git_log E repo = Inr (git_log_rows (splitlines out) [])"
      and k: "ev \<in> set (kept (local_row E st en) (git_log_rows (splitlines out) []))"
    by (auto simp: local_contribution_def parse_git_log_def split: sum.splits)
  from kept_from_body[OF k] obtain x where "x \<in> set (git_log_rows (splitlines out) [])"
      and "local_row E st en x = Inr (Some ev)" by blast
  then show ?thesis using local_row_keeps git_log_rows_source by blast
qed


lemma remote_step_None:
  "listing s = None \<Longrightarrow> remote_step listing body rows s = None"
  by (simp add: remote_step_def)

lemma collect_data_shape:
  assumes "collect_data send E a s = Some (Inr rows, s')"
    and "filter_window E a = Inr (st, en)"
  shows "\<exists>res1 res2 res3.
           rows = (if remote_enabled a
                   then remote_contribution (commit_row E st en) res1 @
                        remote_contribution (branch_row E st en) res2 @
                        remote_contribution (merge_request_row E st en) res3
                   else []) @ local_part E a st en"
proof (cases "remote_enabled a")
  case False
  with assms show ?thesis
    by (simp add: collect_data_local_only[OF assms(2)])
next
  case True
  let ?cl = "make_client a"
  obtain res0 s0 where 0: "get_project_by_path send E ?cl (project a) s = Some (res0, s0)"
  proof (cases "get_project_by_path send E ?cl (project a) s")
    case None
    with assms True show ?thesis by (simp add: collect_data_def)
  next
    case (Some p)
    with that show ?thesis by (cases p) auto
  qed
  let ?id = "resolve_project a res0"
  obtain res1 s1 where 1: "list_commits send E ?cl ?id s0 = Some (res1, s1)"
  proof (cases "list_commits send E ?cl ?id s0")
    case None
    with assms True 0 show ?thesis
      by (simp add: collect_data_def remote_step_None)
  next
    case (Some p)
    with that show ?thesis by (cases p) auto
  qed
  have r1: "remote_step (list_commits send E ?cl ?id) (commit_row E st en) [] s0 =
              Some ([] @ remote_contribution (commit_row E st en) res1, s1)"
    by (rule remote_step_contribution[where listing="list_commits send E ?cl ?id" and s=s0, OF 1])
  obtain res2 s2 where 2: "list_branches send E ?cl ?id s1 = Some (res2, s2)"
  proof (cases "list_branches send E ?cl ?id s1")
    case None
    with assms True 0 r1 show ?thesis
      by (simp add: collect_data_def remote_step_None)
  next
    case (Some p)
    with that show ?thesis by (cases p) auto
  qed
  have r2: "remote_step (list_branches send E ?cl ?id) (branch_row E st en) rws s1 =
              Some (rws @ remote_contribution (branch_row E st en) res2, s2)" for rws
    by (rule remote_step_contribution[where listing="list_branches send E ?cl ?id" and s=s1, OF 2])
  obtain res3 s3 where 3: "list_merge_requests send E ?cl ?id s2 = Some (res3, s3)"
  proof (cases "list_merge_requests send E ?cl ?id s2")
    case None
    with assms True 0 r1 r2 show ?thesis
      by (simp add: collect_data_def remote_step_None)
  next
    case (Some p)
    with that show ?thesis by (cases p) auto
  qed
  from collect_data_remote[OF assms(2) True 0 1 2 3] assms(1) True
  show ?thesis by auto
qed

text \<open>
  Claim C9. In every run whose filter window has a start or an end bound, the reflog
  sub-step appends nothing to the rows it is given (every reflog entry has the empty
  timestamp, which \<^verbatim>\<open>within_range\<close> rejects under a bound, without raising), and the list
  the collector returns holds no event of source \<^verbatim>\<open>local_reflog\<close>.
\<close>

theorem reflog_excluded_under_filter:
  assumes "filter_window E a = Inr (st, en)"
    and "st \<noteq> None \<or> en \<noteq> None"
    and "collect_data send E a s = Some (Inr rows, s')"
  shows "local_step (parse_reflog E (repo_path a)) (local_row E st en) rows0 = rows0 \<and>
         (\<forall>ev\<in>set rows. map_of ev ''source'' \<noteq> Some (JStr ''local_reflog''))"
proof -
  have step: "local_step (parse_reflog E (repo_path a)) (local_row E st en) rows0 = rows0"
    by (simp add: local_step_contribution reflog_contribution_empty[OF assms(2)])
  obtain res1 res2 res3 where rows:
    "rows = (if remote_enabled a
             then remote_contribution (commit_row E st en) res1 @
                  remote_contribution (branch_row E st en) res2 @
                  remote_contribution (merge_request_row E st en) res3
             else []) @ local_part E a st en"
    using collect_data_shape[OF assms(3) assms(1)] by blast
  have "map_of ev ''source'' \<noteq> Some (JStr ''local_reflog'')" if "ev \<in> set rows" for ev
  proof -
    from that rows consider
        "ev \<in> set (remote_contribution (commit_row E st en) res1)"
      | "ev \<in> set (remote_contribution (branch_row E st en) res2)"
      | "ev \<in> set (remote_contribution (merge_request_row E st en) res3)"
      | "ev \<in> set (local_contribution (local_row E st en) (parse_git_log E (repo_path a)))"
      by (auto simp: local_part_def reflog_contribution_empty[OF assms(2)] split: if_splits)
    then show ?thesis
    proof cases
      case 1
      then have "map_of ev ''source'' = Some (JStr ''gitlab_commit'')"
        by (rule remote_contribution_source[rotated]) (rule commit_row_source)
      then show ?thesis by simp
    next
      case 2
      then have "map_of ev ''source'' = Some (JStr ''gitlab_branch'')"
        by (rule remote_contribution_source[rotated]) (rule branch_row_source)
      then show ?thesis by simp
    next
      case 3
      then have "map_of ev ''source'' = Some (JStr ''gitlab_merge_request'')"
        by (rule remote_contribution_source[rotated]) (rule merge_request_row_source)
      then show ?thesis by simp
    next
      case 4
      then have "map_of ev ''source'' = Some (JStr ''local_commit'')"
        by (rule git_log_contribution_source)
      then show ?thesis by simp
    qed
  qed
  with step show ?thesis by blast
qed

text \<open>
  A run with the explicit range 2025-06-01 to 2025-12-31 on the sample repository, whose
  reflog has two entries: five events are returned, none of them from the reflog.
\<close>

theorem reflog_excluded_under_filter_witness:
  "filter_window demo_env demo_args_range = Inr (Some d_2025_06_01, Some d_2025_12_31) \<and>
   map_sum id length (parse_reflog demo_env (repo_path demo_args_range)) = Inr 2 \<and>
   local_step (parse_reflog demo_env (repo_path demo_args_range))
     (local_row demo_env (Some d_2025_06_01) (Some d_2025_12_31)) [] = [] \<and>
   (\<exists>rows s'. collect_data script_send demo_env demo_args_range (demo_script, []) = Some (Inr rows, s') \<and>
      \<not> (\<exists>ev\<in>set rows. map_of ev ''source'' = Some (JStr ''local_reflog'')) \<and>
      map (\<lambda>ev. map_of ev ''source'') rows =
        [Some (JStr ''gitlab_commit''), Some (JStr ''gitlab_commit''), Some (JStr ''gitlab_branch''),
         Some (JStr ''gitlab_merge_request''), Some (JStr ''local_commit'')])"
proof -
  have w: "filter_window demo_env demo_args_range = Inr (Some d_2025_06_01, Some d_2025_12_31)"
    by (simp add: filter_window_def demo_args_range_def demo_args_def and_then_def
        parse_date_any_def demo_env_def demo_fromisoformat_def replace_char_def)
  have b: "Some d_2025_06_01 \<noteq> None \<or> Some d_2025_12_31 \<noteq> None" by simp
  have n: "map_sum id length (parse_reflog demo_env (repo_path demo_args_range)) = Inr 2"
    by code_simp
  have run: "map_option (\<lambda>r. map_sum id (map (\<lambda>ev. map_of ev ''source'')) (fst r))
       (collect_data script_send demo_env demo_args_range (demo_script, [])) =
     Some (Inr [Some (JStr ''gitlab_commit''), Some (JStr ''gitlab_commit''), Some (JStr ''gitlab_branch''),
         Some (JStr ''gitlab_merge_request''), Some (JStr ''local_commit'')])"
    by code_simp
  then obtain r where r: "collect_data script_send demo_env demo_args_range (demo_script, []) = Some r"
    and m: "map_sum id (map (\<lambda>ev. map_of ev ''source'')) (fst r) =
       Inr [Some (JStr ''gitlab_commit''), Some (JStr ''gitlab_commit''), Some (JStr ''gitlab_branch''),
         Some (JStr ''gitlab_merge_request''), Some (JStr ''local_commit'')]"
    by auto
  from m obtain rows where rows: "fst r = Inr rows"
    and srcs: "map (\<lambda>ev. map_of ev ''source'') rows =
       [Some (JStr ''gitlab_commit''), Some (JStr ''gitlab_commit''), Some (JStr ''gitlab_branch''),
         Some (JStr ''gitlab_merge_request''), Some (JStr ''local_commit'')]"
    by (cases "fst r") auto
  from r rows have c: "collect_data script_send demo_env demo_args_range (demo_script, []) = Some (Inr rows, snd r)"
    by (cases r) simp
  note t = reflog_excluded_under_filter[OF w b c, of "[]"]
  from t have t1: "local_step (parse_reflog demo_env (repo_path demo_args_range))
     (local_row demo_env (Some d_2025_06_01) (Some d_2025_12_31)) [] = []" by (rule conjunct1)
  from t have t2: "\<not> (\<exists>ev\<in>set rows. map_of ev ''source'' = Some (JStr ''local_reflog''))"
    by simp
  from c t2 srcs have "\<exists>rows s'. collect_data script_send demo_env demo_args_range (demo_script, []) = Some (Inr rows, s') \<and>
      \<not> (\<exists>ev\<in>set rows. map_of ev ''source'' = Some (JStr ''local_reflog'')) \<and>
      map (\<lambda>ev. map_of ev ''source'') rows =
        [Some (JStr ''gitlab_commit''), Some (JStr ''gitlab_commit''), Some (JStr ''gitlab_branch''),
         Some (JStr ''gitlab_merge_request''), Some (JStr ''local_commit'')]"
    by (intro exI[of _ rows] exI[of _ "snd r"] conjI)
  with w n t1 show ?thesis by (intro conjI)
qed

section \<open>The CSV file read back\<close>

text \<open>
  The reader run on a written text: first over the characters of one field, then over a
  field with its delimiter or line end, over a row, and over the file.
\<close>

lemmas parser_simps = parse_process_char_def start_field_def is_newline_def after_newline_def
  parse_save_field_def parse_add_char_def

lemma plain_run:
  assumes "\<forall>c\<in>set f. \<not> special c"
  shows "read_records \<lparr>state = IN_FIELD, field = fl, rec_fields = fs\<rparr> recs pend (f @ rest) =
         read_records \<lparr>state = IN_FIELD, field = fl @ f, rec_fields = fs\<rparr> recs (pend \<or> f \<noteq> []) rest"
  using assms
proof (induction f arbitrary: fl pend)
  case Nil
  show ?case by simp
next
  case (Cons c f)
  from Cons.prems have c: "c \<noteq> CHR '',''" "c \<noteq> CHR 0x22" "c \<noteq> CHR 0x0D" "c \<noteq> CHR 0x0A"
    by (auto simp: special_def)
  from Cons.prems have f: "\<forall>c\<in>set f. \<not> special c" by simp
  show ?case
    using c Cons.IH[OF f, of "fl @ [c]" True]
    by (simp add: parser_simps ends_line_def)
qed

lemma plain_start:
  assumes "\<forall>c\<in>set f. \<not> special c" and "f \<noteq> []" and "st = START_RECORD \<or> st = START_FIELD"
  shows "read_records \<lparr>state = st, field = [], rec_fields = fs\<rparr> recs pend (f @ rest) =
         read_records \<lparr>state = IN_FIELD, field = f, rec_fields = fs\<rparr> recs True rest"
proof -
  from assms(2) obtain c g where f: "f = c # g" by (cases f) auto
  with assms(1) have c: "c \<noteq> CHR '',''" "c \<noteq> CHR 0x22" "c \<noteq> CHR 0x0D" "c \<noteq> CHR 0x0A"
    and g: "\<forall>c\<in>set g. \<not> special c"
    by (auto simp: special_def)
  show ?thesis
    using c assms(3) plain_run[OF g, of "[c]" fs recs True rest]
    by (auto simp: f parser_simps ends_line_def)
qed

lemma quoted_body:
  "read_records \<lparr>state = IN_QUOTED_FIELD, field = fl, rec_fields = fs\<rparr> recs pend
     (double_quotes f @ CHR 0x22 # rest) =
   read_records \<lparr>state = QUOTE_IN_QUOTED_FIELD, field = fl @ f, rec_fields = fs\<rparr> recs True rest"
proof (induction f arbitrary: fl pend)
  case Nil
  show ?case by (simp add: double_quotes_def parser_simps ends_line_def)
next
  case (Cons c f)
  have dq: "double_quotes (c # f) = (if c = CHR 0x22 then [CHR 0x22, CHR 0x22] else [c]) @ double_quotes f"
    by (simp add: double_quotes_def)
  show ?case
  proof (cases "c = CHR 0x22")
    case True
    show ?thesis
      unfolding True
      using Cons.IH[of "fl @ [CHR 0x22]" True]
      by (simp add: double_quotes_def parser_simps ends_line_def)
  next
    case False
    then show ?thesis
      using Cons.IH[of "fl @ [c]" True] Cons.IH[of "fl @ [c]" False]
      by (simp add: dq parser_simps)
  qed
qed

lemma quoted_start:
  assumes "st = START_RECORD \<or> st = START_FIELD"
  shows "read_records \<lparr>state = st, field = [], rec_fields = fs\<rparr> recs pend (quoted f @ rest) =
         read_records \<lparr>state = QUOTE_IN_QUOTED_FIELD, field = f, rec_fields = fs\<rparr> recs True rest"
  using assms quoted_body[of "[]" fs recs True f rest]
  by (auto simp: quoted_def parser_simps ends_line_def)

lemma field_comma:
  assumes "st = START_RECORD \<or> st = START_FIELD"
  shows "read_records \<lparr>state = st, field = [], rec_fields = fs\<rparr> recs pend
           (csv_field f @ CHR '','' # rest) =
         read_records \<lparr>state = START_FIELD, field = [], rec_fields = fs @ [f]\<rparr> recs True rest"
proof (cases "needs_quotes f")
  case True
  then show ?thesis
    using quoted_start[OF assms, of fs recs pend f "CHR '','' # rest"]
    by (simp add: csv_field_def parser_simps ends_line_def)
next
  case False
  then have plain: "\<forall>c\<in>set f. \<not> special c"
    by (simp add: needs_quotes_def list_ex_iff)
  show ?thesis
  proof (cases "f = []")
    case True
    with False assms show ?thesis
      by (auto simp: csv_field_def parser_simps ends_line_def)
  next
    case nonempty: False
    show ?thesis
      using plain_start[OF plain nonempty assms, of fs recs pend "CHR '','' # rest"] False
      by (simp add: csv_field_def parser_simps ends_line_def)
  qed
qed

lemma field_end:
  assumes "st = START_FIELD \<or> (st = START_RECORD \<and> csv_field f \<noteq> [])"
  shows "read_records \<lparr>state = st, field = [], rec_fields = fs\<rparr> recs pend
           (csv_field f @ CHR 0x0D # CHR 0x0A # rest) =
         read_records parse_reset (recs @ [fs @ [f]]) False rest"
proof (cases "needs_quotes f")
  case True
  from assms have st: "st = START_RECORD \<or> st = START_FIELD" by auto
  from True show ?thesis
    using quoted_start[OF st, of fs recs pend f "CHR 0x0D # CHR 0x0A # rest"]
    by (simp add: csv_field_def parser_simps ends_line_def)
next
  case False
  then have plain: "\<forall>c\<in>set f. \<not> special c"
    by (simp add: needs_quotes_def list_ex_iff)
  show ?thesis
  proof (cases "f = []")
    case True
    with False assms show ?thesis
      by (auto simp: csv_field_def parser_simps ends_line_def)
  next
    case nonempty: False
    from assms have st: "st = START_RECORD \<or> st = START_FIELD" by auto
    show ?thesis
      using plain_start[OF plain nonempty st, of fs recs pend "CHR 0x0D # CHR 0x0A # rest"] False
      by (simp add: csv_field_def parser_simps ends_line_def)
  qed
qed

lemma join_scan:
  assumes "fs \<noteq> []" and "st = START_FIELD \<or> (st = START_RECORD \<and> join_fields fs \<noteq> [])"
  shows "read_records \<lparr>state = st, field = [], rec_fields = acc\<rparr> recs pend
           (join_fields fs @ CHR 0x0D # CHR 0x0A # rest) =
         read_records parse_reset (recs @ [acc @ fs]) False rest"
  using assms
proof (induction fs arbitrary: st acc pend rule: join_fields.induct)
  case 1
  then show ?case by simp
next
  case (2 f)
  then show ?case
    using field_end[of st f acc recs pend rest] by simp
next
  case (3 f g fs)
  from "3.prems"(2) have st: "st = START_RECORD \<or> st = START_FIELD" by auto
  have "read_records \<lparr>state = st, field = [], rec_fields = acc\<rparr> recs pend
           (join_fields (f # g # fs) @ CHR 0x0D # CHR 0x0A # rest) =
        read_records \<lparr>state = START_FIELD, field = [], rec_fields = acc @ [f]\<rparr> recs True
           (join_fields (g # fs) @ CHR 0x0D # CHR 0x0A # rest)"
    using field_comma[OF st, of acc recs pend f] by simp
  also have "\<dots> = read_records parse_reset (recs @ [(acc @ [f]) @ g # fs]) False rest"
    by (rule "3.IH") simp_all
  finally show ?case by simp
qed

lemma join_fields_empty:
  assumes "join_fields fs = []" and "fs \<noteq> []"
  shows "fs = [[]]"
proof (cases fs rule: join_fields.cases)
  case 1
  with assms show ?thesis by simp
next
  case (2 f)
  with assms have "csv_field f = []" by simp
  then have "f = []"
    by (auto simp: csv_field_def quoted_def split: if_splits)
  with 2 show ?thesis by simp
next
  case (3 f g gs)
  with assms show ?thesis by simp
qed

lemma row_scan:
  "read_records parse_reset recs pend (csv_writerow fs @ rest) =
   read_records parse_reset (recs @ [fs]) False rest"
proof (cases "fs = []")
  case True
  then show ?thesis
    by (simp add: csv_writerow_def parse_reset_def parser_simps ends_line_def)
next
  case False
  show ?thesis
  proof (cases "join_fields fs = []")
    case True
    with False have fs: "fs = [[]]" by (rule join_fields_empty[rotated])
    have st: "START_RECORD = START_RECORD \<or> START_RECORD = START_FIELD" by simp
    show ?thesis
      using quoted_start[OF st, of "[]" recs pend "[]" "CHR 0x0D # CHR 0x0A # rest"]
      by (simp add: fs csv_writerow_def csv_field_def needs_quotes_def parse_reset_def
          parser_simps ends_line_def)
  next
    case nonempty: False
    show ?thesis
      using join_scan[OF False, of START_RECORD "[]" recs pend rest] nonempty False
      by (simp add: csv_writerow_def parse_reset_def)
  qed
qed

lemma file_scan:
  "read_records parse_reset recs False (concat (map csv_writerow rows)) = Inr (recs @ rows)"
proof (induction rows arbitrary: recs)
  case Nil
  show ?case by (simp add: parse_reset_def)
next
  case (Cons r rows)
  show ?case
    using row_scan[of recs False r "concat (map csv_writerow rows)"] Cons.IH[of "recs @ [r]"]
    by simp
qed

lemma csv_round_trip: "csv_reader (concat (map csv_writerow rows)) = Inr rows"
  using file_scan[of "[]" rows] by (simp add: csv_reader_def)

text \<open>
  Claim C8. For a non-empty event list \<^verbatim>\<open>write_csv\<close> writes a file, and reading its text
  back gives one header row, which is the sorted union of the field names without
  repetition, and one row per event in order; the cell of event \<open>i\<close> in column \<open>j\<close> is the
  text that was written for that field: the empty string when the event lacks the field,
  the same string when the value is a string (and \<^verbatim>\<open>str\<close> of the value otherwise, the
  empty string for \<^verbatim>\<open>None\<close>).
\<close>

theorem write_csv_round_trip:
  assumes "rows \<noteq> []"
  shows "\<exists>text table.
           write_csv E rows = Some text \<and> csv_reader text = Inr table \<and>
           length table = Suc (length rows) \<and>
           table ! 0 = columns rows \<and>
           sorted (columns rows) \<and> distinct (columns rows) \<and>
           set (columns rows) = (\<Union>r\<in>set rows. fst ` set r) \<and>
           (\<forall>i<length rows.
              length (table ! Suc i) = length (columns rows) \<and>
              (\<forall>j<length (columns rows).
                 table ! Suc i ! j =
                   (case map_of (rows ! i) (columns rows ! j) of
                      None \<Rightarrow> []
                    | Some v \<Rightarrow> csv_text E v))) \<and>
           (\<forall>s. csv_text E (JStr s) = s)"
proof -
  let ?keys = "columns rows"
  let ?table = "?keys # map (csv_row E ?keys) rows"
  let ?text = "concat (map csv_writerow ?table)"
  have w: "write_csv E rows = Some ?text"
    using assms by (simp add: write_csv_def Let_def comp_def)
  have r: "csv_reader ?text = Inr ?table"
    by (rule csv_round_trip)
  have cell: "csv_text E (case map_of r k of None \<Rightarrow> JStr [] | Some v \<Rightarrow> v) =
              (case map_of r k of None \<Rightarrow> [] | Some v \<Rightarrow> csv_text E v)" for r :: event and k
    by (simp add: csv_text_def split: option.splits)
  have cols: "sorted ?keys \<and> distinct ?keys \<and> set ?keys = (\<Union>r\<in>set rows. fst ` set r)"
    by (auto simp: columns_def)
  have cells: "\<forall>i<length rows.
              length (?table ! Suc i) = length ?keys \<and>
              (\<forall>j<length ?keys.
                 ?table ! Suc i ! j =
                   (case map_of (rows ! i) (?keys ! j) of None \<Rightarrow> [] | Some v \<Rightarrow> csv_text E v))"
    by (simp add: csv_row_def cell)
  have str: "\<forall>s. csv_text E (JStr s) = s" by (simp add: csv_text_def)
  show ?thesis
    using w r cols cells str
    by (intro exI[of _ ?text] exI[of _ ?table]) simp
qed

text \<open>
  The two sample events written and read back: the message with its comma, quotes and line
  feed returns unchanged, the fields an event lacks return empty.
\<close>

theorem write_csv_round_trip_witness:
  "demo_events \<noteq> [] \<and>
   (\<exists>text table.
      write_csv demo_env demo_events = Some text \<and> csv_reader text = Inr table \<and>
      length table = Suc (length demo_events) \<and> table ! 0 = columns demo_events) \<and>
   map_option csv_reader (write_csv demo_env demo_events) =
     Some (Inr [[''message'', ''source'', ''url'', ''user_name''],
                [''fix a,b '' @ [CHR 0x22] @ ''c'' @ [CHR 0x22, CHR 0x0A] @ ''more'', ''local_commit'', [], []],
                [[], ''local_reflog'', [], []]])"
proof -
  have ne: "demo_events \<noteq> []" by (simp add: demo_events_def)
  from write_csv_round_trip[OF ne, of demo_env]
  have ex: "\<exists>text table.
      write_csv demo_env demo_events = Some text \<and> csv_reader text = Inr table \<and>
      length table = Suc (length demo_events) \<and> table ! 0 = columns demo_events"
    by blast
  have run: "map_option csv_reader (write_csv demo_env demo_events) =
     Some (Inr [[''message'', ''source'', ''url'', ''user_name''],
                [''fix a,b '' @ [CHR 0x22] @ ''c'' @ [CHR 0x22, CHR 0x0A] @ ''more'', ''local_commit'', [], []],
                [[], ''local_reflog'', [], []]])"
    by code_simp
  from ne ex run show ?thesis by (intro conjI)
qed

section \<open>The fields of an event\<close>

text \<open>Every event that the collector returns has exactly the nine fields, in the same order.\<close>

lemma commit_row_fields:
  assumes "commit_row E st en c = Inr (Some ev)"
  shows "map fst ev = event_fields"
  using assms unfolding commit_row_def Let_def event_fields_def
  by (elim and_then_InrE) (auto split: if_splits elim!: and_then_InrE)

lemma branch_row_fields:
  assumes "branch_row E st en c = Inr (Some ev)"
  shows "map fst ev = event_fields"
  using assms unfolding branch_row_def Let_def event_fields_def
  by (elim and_then_InrE) (auto split: if_splits elim!: and_then_InrE)

lemma merge_request_row_fields:
  assumes "merge_request_row E st en c = Inr (Some ev)"
  shows "map fst ev = event_fields"
  using assms unfolding merge_request_row_def Let_def event_fields_def
  by (elim and_then_InrE) (auto split: if_splits elim!: and_then_InrE)

lemma git_log_row_fields:
  assumes "git_log_row l = Some ev"
  shows "map fst ev = event_fields"
  using assms by (auto simp: git_log_row_def event_fields_def split: list.splits)

lemma reflog_row_fields: "map fst (reflog_row l) = event_fields"
  by (simp add: reflog_row_def event_fields_def Let_def)

lemma git_log_rows_fields:
  assumes "ev \<in> set (git_log_rows ls [])"
  shows "map fst ev = event_fields"
  using assms
proof (induction ls)
  case Nil
  then show ?case by simp
next
  case (Cons l ls)
  show ?case
  proof (cases "git_log_row l")
    case None
    with Cons show ?thesis by simp
  next
    case (Some e)
    with Cons.prems have "ev \<in> set ([e] @ git_log_rows ls [])"
      using git_log_rows_acc[of ls "[e]"] by simp
    with Cons.IH Some show ?thesis by (auto dest: git_log_row_fields)
  qed
qed

lemma remote_contribution_fields:
  assumes "\<And>x ev. body x = Inr (Some ev) \<Longrightarrow> map fst ev = event_fields"
    and "ev \<in> set (remote_contribution body res)"
  shows "map fst ev = event_fields"
  using assms(2) kept_from_body[of ev body] assms(1)
  by (auto simp: remote_contribution_def split: sum.splits)

lemma local_contribution_fields:
  assumes "ev \<in> set (local_contribution (local_row E st en) parsed)"
    and "\<And>entries e. parsed = Inr entries \<Longrightarrow> e \<in> set entries \<Longrightarrow> map fst e = event_fields"
  shows "map fst ev = event_fields"
proof -
  from assms(1) obtain entries where p: "parsed = Inr entries"
      and k: "ev \<in> set (kept (local_row E st en) entries)"
    by (auto simp: local_contribution_def split: sum.splits)
  from kept_from_body[OF k] obtain x where "x \<in> set entries"
      and "local_row E st en x = Inr (Some ev)" by blast
  then show ?thesis using local_row_keeps assms(2)[OF p] by blast
qed

lemma local_part_fields:
  assumes "ev \<in> set (local_part E a st en)"
  shows "map fst ev = event_fields"
proof -
  from assms consider
      "ev \<in> set (local_contribution (local_row E st en) (parse_git_log E (repo_path a)))"
    | "ev \<in> set (local_contribution (local_row E st en) (parse_reflog E (repo_path a)))"
    by (auto simp: local_part_def split: if_splits)
  then show ?thesis
  proof cases
    case 1
    then show ?thesis
      by (rule local_contribution_fields)
         (auto simp: parse_git_log_def split: sum.splits dest: git_log_rows_fields)
  next
    case 2
    then show ?thesis
      by (rule local_contribution_fields)
         (auto simp: parse_reflog_def reflog_rows_map reflog_row_fields split: sum.splits)
  qed
qed

lemma collect_data_fields:
  assumes "collect_data send E a s = Some (Inr rows, s')" and "ev \<in> set rows"
  shows "map fst ev = event_fields"
proof -
  from assms(1) obtain st en where w: "filter_window E a = Inr (st, en)"
    by (cases "filter_window E a") (auto simp: collect_data_def)
  obtain res1 res2 res3 where rows:
    "rows = (if remote_enabled a
             then remote_contribution (commit_row E st en) res1 @
                  remote_contribution (branch_row E st en) res2 @
                  remote_contribution (merge_request_row E st en) res3
             else []) @ local_part E a st en"
    using collect_data_shape[OF assms(1) w] by blast
  from assms(2) rows consider
      "ev \<in> set (remote_contribution (commit_row E st en) res1)"
    | "ev \<in> set (remote_contribution (branch_row E st en) res2)"
    | "ev \<in> set (remote_contribution (merge_request_row E st en) res3)"
    | "ev \<in> set (local_part E a st en)"
    by (auto split: if_splits)
  then show ?thesis
  proof cases
    case 1
    then show ?thesis by (rule remote_contribution_fields[rotated]) (rule commit_row_fields)
  next
    case 2
    then show ?thesis by (rule remote_contribution_fields[rotated]) (rule branch_row_fields)
  next
    case 3
    then show ?thesis by (rule remote_contribution_fields[rotated]) (rule merge_request_row_fields)
  next
    case 4
    then show ?thesis by (rule local_part_fields)
  qed
qed

text \<open>
  Claim C6. Every event has the nine fields (\<open>collect_data_fields\<close> above), but a field
  whose data is missing is not always the empty string. \<^verbatim>\<open>c.get('author_name')\<close>, \<^verbatim>\<open>c.get('author_email')\<close>, \<^verbatim>\<open>c.get('id')\<close>,
  \<^verbatim>\<open>b.get('name')\<close> and the author's \<^verbatim>\<open>get('name')\<close> have no default, so a missing key
  gives \<^verbatim>\<open>None\<close>, and a key that is present with the value \<^verbatim>\<open>null\<close> gives \<^verbatim>\<open>None\<close> even
  where the default \<^verbatim>\<open>''\<close> is written. Here the collector is run on a commit without
  author fields and on a merge request whose \<^verbatim>\<open>sha\<close> is \<^verbatim>\<open>null\<close>.
\<close>

theorem collect_data_null_fields:
  "map_option fst
     (collect_data script_send demo_env (demo_args\<lparr>repo_path := []\<rparr>)
        ([project_page, json_page (JArr [commit_without_author]) None,
          json_page (JArr []) None, json_page (JArr [merge_request_draft]) None], [])) =
     Some (Inr
      [[(''source'', JStr ''gitlab_commit''), (''action_type'', JStr ''commit''),
        (''user_name'', JNull), (''user_email'', JNull),
        (''timestamp'', JStr ''2025-06-01''), (''ref'', JStr []),
        (''commit_sha'', JStr ''5e6f''), (''message'', JStr ''tidy''), (''url'', JStr [])],
       [(''source'', JStr ''gitlab_merge_request''), (''action_type'', JStr ''merge_request_opened''),
        (''user_name'', JStr ''Ann''), (''user_email'', JStr []),
        (''timestamp'', JStr ''2025-06-01''), (''ref'', JStr ''dev->main''),
        (''commit_sha'', JNull), (''message'', JStr ''Draft: add x''), (''url'', JStr [])]])"
  by code_simp

end
